theory Spec2Isabelle
  imports Complex_Main "HOL-Library.Word"
begin

section \<open>Images, rectangles and the OpenCV primitives the renderer calls\<close>

text \<open>
  A \<open>cv::cuda::GpuMat\<close> is modelled by its pixel rows: a list of rows, each a list of
  pixels. The pixel type stays a parameter wherever the code only moves pixels around.
  C++ \<open>int\<close> values are unbounded integers here. Signed overflow is undefined in the
  source, so a statement about the code only speaks of inputs on which the additions,
  subtractions and multiplications of the source stay inside the 32-bit range; the
  theorems say so with \<open>int32\<close>.
\<close>

type_synonym 'a mat = "'a list list"

definition int32 :: "int \<Rightarrow> bool" where
  "int32 v \<longleftrightarrow> - 2147483648 \<le> v \<and> v \<le> 2147483647"

definition rows :: "'a mat \<Rightarrow> int" where
  "rows m = int (length m)"

definition cols :: "'a mat \<Rightarrow> int" where
  "cols m = (case m of [] \<Rightarrow> 0 | r # _ \<Rightarrow> int (length r))"

definition is_mat :: "nat \<Rightarrow> nat \<Rightarrow> 'a mat \<Rightarrow> bool" where
  "is_mat r c m \<longleftrightarrow> length m = r \<and> (\<forall>row \<in> set m. length row = c)"

definition mat_of :: "nat \<Rightarrow> nat \<Rightarrow> (nat \<Rightarrow> nat \<Rightarrow> 'a) \<Rightarrow> 'a mat" where
  "mat_of r c f = map (\<lambda>y. map (\<lambda>x. f y x) [0..<c]) [0..<r]"

definition at_px :: "'a mat \<Rightarrow> int \<Rightarrow> int \<Rightarrow> 'a" where
  "at_px m y x = m ! nat y ! nat x"

record size2i =
  width :: int
  height :: int

record point2i =
  px :: int
  py :: int

record rect2i =
  rx :: int
  ry :: int
  rwidth :: int
  rheight :: int

text \<open>
  What can stop a call: an OpenCV assertion (a \<open>cv::Exception\<close>, which \<open>render\<close> and
  \<open>load\<close> catch and turn into \<open>false\<close>), an engine \<open>load\<close> rejects, the three ways
  \<open>infer\<close> returns \<open>false\<close>, and reading a \<open>std::vector\<close> or \<open>std::queue\<close> out of
  range, where the behaviour of the C++ program is undefined and the model stops.
\<close>

datatype error =
  CvAssertion
  | InvalidEngine
  | BatchSizeMismatch
  | ShapeMismatch
  | EnqueueFailed
  | IndexOutOfRange

definition then_do :: "error + 'a \<Rightarrow> ('a \<Rightarrow> error + 'b) \<Rightarrow> error + 'b" where
  "then_do r f = (case r of Inl e \<Rightarrow> Inl e | Inr v \<Rightarrow> f v)"

definition vec_at :: "'a list \<Rightarrow> int \<Rightarrow> error + 'a" where
  "vec_at xs i = (if 0 \<le> i \<and> i < int (length xs) then Inr (xs ! nat i) else Inl IndexOutOfRange)"

text \<open>
  A pixel has three channels. The tiles that go to the executor are 8-bit (\<open>CV_8UC3\<close>),
  the tiles that come back and the canvas are floating point (\<open>CV_32FC3\<close>). Floating-point
  values are modelled as exact rationals: rounding in \<open>float\<close> arithmetic is outside
  this development.
\<close>

datatype 'a px3 = Px3 'a 'a 'a

instantiation px3 :: (zero) zero
begin
definition zero_px3 :: "'a px3" where
  "zero_px3 = Px3 0 0 0"
instance ..
end

instantiation px3 :: (plus) plus
begin
fun plus_px3 :: "'a px3 \<Rightarrow> 'a px3 \<Rightarrow> 'a px3" where
  "plus_px3 (Px3 a b c) (Px3 d e f) = Px3 (a + d) (b + e) (c + f)"
instance ..
end

instantiation px3 :: (times) times
begin
fun times_px3 :: "'a px3 \<Rightarrow> 'a px3 \<Rightarrow> 'a px3" where
  "times_px3 (Px3 a b c) (Px3 d e f) = Px3 (a * d) (b * e) (c * f)"
instance ..
end

type_synonym u8 = "8 word"
type_synonym fpx = "rat px3"

definition gray :: "'a \<Rightarrow> 'a px3" where
  "gray v = Px3 v v v"

definition zeros :: "size2i \<Rightarrow> 'a::zero mat" where
  "zeros sz = mat_of (nat (height sz)) (nat (width sz)) (\<lambda>y x. 0)"

text \<open>
  \<open>GpuMat::operator()(Rect)\<close> asserts that the rectangle lies inside the matrix and has
  no negative extent, and returns that region; a region without rows or without columns
  is the empty matrix.
\<close>

definition roi :: "'a mat \<Rightarrow> rect2i \<Rightarrow> error + 'a mat" where
  "roi m r =
     (if 0 \<le> rx r \<and> 0 \<le> rwidth r \<and> rx r + rwidth r \<le> cols m
         \<and> 0 \<le> ry r \<and> 0 \<le> rheight r \<and> ry r + rheight r \<le> rows m
      then (if rwidth r = 0 \<or> rheight r = 0 then Inr []
            else Inr (map (\<lambda>row. take (nat (rwidth r)) (drop (nat (rx r)) row))
                        (take (nat (rheight r)) (drop (nat (ry r)) m))))
      else Inl CvAssertion)"

text \<open>
  Writing through such a region: the pixels of \<open>patch\<close> replace those of \<open>m\<close> inside
  the rectangle.
\<close>

definition write_roi :: "'a mat \<Rightarrow> rect2i \<Rightarrow> 'a mat \<Rightarrow> 'a mat" where
  "write_roi m r patch =
     mat_of (length m) (nat (cols m))
       (\<lambda>y x. if rx r \<le> int x \<and> int x < rx r + rwidth r
                  \<and> ry r \<le> int y \<and> int y < ry r + rheight r
               then at_px patch (int y - ry r) (int x - rx r)
               else m ! y ! x)"

text \<open>
  \<open>cv::cuda::copyMakeBorder\<close> with \<open>BORDER_REPLICATE\<close>: the source surrounded by
  the given numbers of rows above and below and of columns left and right, each new pixel a copy
  of the nearest source pixel. An empty source has no pixel to replicate.
\<close>

definition clamp :: "int \<Rightarrow> int \<Rightarrow> int \<Rightarrow> int" where
  "clamp lo hi v = (if v < lo then lo else if hi < v then hi else v)"

definition copyMakeBorder :: "'a mat \<Rightarrow> int \<Rightarrow> int \<Rightarrow> int \<Rightarrow> int \<Rightarrow> error + 'a mat" where
  "copyMakeBorder src padTop padBottom padLeft padRight =
     (if rows src \<le> 0 \<or> cols src \<le> 0
         \<or> padTop < 0 \<or> padBottom < 0 \<or> padLeft < 0 \<or> padRight < 0
      then Inl CvAssertion
      else Inr (mat_of (nat (rows src + padTop + padBottom)) (nat (cols src + padLeft + padRight))
                  (\<lambda>y x. at_px src (clamp 0 (rows src - 1) (int y - padTop))
                                    (clamp 0 (cols src - 1) (int x - padLeft)))))"

text \<open>
  \<open>cv::cuda::add\<close> and \<open>cv::cuda::multiply\<close> of two matrices work pixel by pixel and
  assert that both have the same size.
\<close>

definition same_size :: "'a mat \<Rightarrow> 'b mat \<Rightarrow> bool" where
  "same_size a b \<longleftrightarrow> rows a = rows b \<and> cols a = cols b"

definition add_cv :: "'a::plus mat \<Rightarrow> 'a mat \<Rightarrow> error + 'a mat" where
  "add_cv a b = (if same_size a b then Inr (map2 (map2 (+)) a b) else Inl CvAssertion)"

definition multiply_cv :: "'a::times mat \<Rightarrow> 'a mat \<Rightarrow> error + 'a mat" where
  "multiply_cv a b = (if same_size a b then Inr (map2 (map2 (*)) a b) else Inl CvAssertion)"

definition multiply_scalar :: "'a::times mat \<Rightarrow> 'a \<Rightarrow> 'a mat" where
  "multiply_scalar a k = map (map (\<lambda>v. v * k)) a"

text \<open>\<open>GpuMat::row(y).setTo(v)\<close> and \<open>GpuMat::col(x).setTo(v)\<close>; both assert the index.\<close>

definition set_row :: "'a mat \<Rightarrow> int \<Rightarrow> 'a \<Rightarrow> error + 'a mat" where
  "set_row m y v =
     (if 0 \<le> y \<and> y < rows m then Inr (m[nat y := map (\<lambda>_. v) (m ! nat y)])
      else Inl CvAssertion)"

definition set_col :: "'a mat \<Rightarrow> int \<Rightarrow> 'a \<Rightarrow> error + 'a mat" where
  "set_col m x v =
     (if 0 \<le> x \<and> x < cols m then Inr (map (\<lambda>row. row[nat x := v]) m)
      else Inl CvAssertion)"

text \<open>
  \<open>cv::cuda::flip(src, dst, flipCode)\<close>: code 0 mirrors around the x-axis (the rows are
  reversed), a positive code mirrors around the y-axis (each row is reversed), a negative
  code does both.
\<close>

definition flip_cv :: "'a mat \<Rightarrow> int \<Rightarrow> 'a mat" where
  "flip_cv src flipCode =
     (if flipCode = 0 then rev src
      else if 0 < flipCode then map rev src
      else map rev (rev src))"

text \<open>
  \<open>cv::cuda::rotate(src, dst, dsize, angle, xShift, yShift, INTER_NEAREST)\<close> rotates
  around the origin and then shifts: the destination has size \<open>dsize\<close>, is cleared to
  zero, and its pixel \<open>(x, y)\<close> is read from the source position
  \<open>((x - xShift) cos a - (y - yShift) sin a, (x - xShift) sin a + (y - yShift) cos a)\<close>
  when that lies inside the source. The source only passes 90, 180 and 270 degrees, for
  which cosine and sine are exactly 0, 1 or -1; other angles are not modelled.
\<close>

definition rot_cos :: "int \<Rightarrow> int" where
  "rot_cos a = (if a mod 360 = 0 then 1 else if a mod 360 = 180 then - 1 else 0)"

definition rot_sin :: "int \<Rightarrow> int" where
  "rot_sin a = (if a mod 360 = 90 then 1 else if a mod 360 = 270 then - 1 else 0)"

definition rotate_cv :: "'a::zero mat \<Rightarrow> size2i \<Rightarrow> int \<Rightarrow> int \<Rightarrow> int \<Rightarrow> 'a mat" where
  "rotate_cv src dsize angle xShift yShift =
     mat_of (nat (height dsize)) (nat (width dsize))
       (\<lambda>y x.
          let dx = int x - xShift;
              dy = int y - yShift;
              xs = dx * rot_cos angle - dy * rot_sin angle;
              ys = dx * rot_sin angle + dy * rot_cos angle
          in if 0 \<le> xs \<and> xs < cols src \<and> 0 \<le> ys \<and> ys < rows src
             then at_px src ys xs else 0)"

section \<open>The augmentation codec\<close>

text \<open>
  The enumeration \<open>Augmentation\<close> numbers its members 0 to 7 in this order:
  None, FlipHorizontal, FlipVertical, Rotate90, Rotate180, Rotate270,
  FlipHorizontalRotate90, FlipVerticalRotate90. Both functions switch on the integer
  index, and the \<open>default\<close> label shares the branch of \<open>None\<close>.
\<close>

definition applyAugmentation :: "'a::zero mat \<Rightarrow> size2i \<Rightarrow> int \<Rightarrow> 'a mat" where
  "applyAugmentation src dstSize augmentationIndex =
     (if augmentationIndex = 1 then flip_cv src 0
      else if augmentationIndex = 2 then flip_cv src 1
      else if augmentationIndex = 3 then rotate_cv src dstSize 90 0 (height dstSize - 1)
      else if augmentationIndex = 4 then
        rotate_cv src dstSize 180 (width dstSize - 1) (height dstSize - 1)
      else if augmentationIndex = 5 then rotate_cv src dstSize 270 (width dstSize - 1) 0
      else if augmentationIndex = 6 then
        (let tmpInputMat = flip_cv src 0
         in rotate_cv tmpInputMat dstSize 90 0 (height dstSize - 1))
      else if augmentationIndex = 7 then
        (let tmpInputMat = flip_cv src 1
         in rotate_cv tmpInputMat dstSize 90 0 (height dstSize - 1))
      else src)"

definition reverseAugmentation :: "'a::zero mat \<Rightarrow> size2i \<Rightarrow> int \<Rightarrow> 'a mat" where
  "reverseAugmentation src dstSize augmentationIndex =
     (if augmentationIndex = 1 then flip_cv src 0
      else if augmentationIndex = 2 then flip_cv src 1
      else if augmentationIndex = 3 then rotate_cv src dstSize 270 (width dstSize - 1) 0
      else if augmentationIndex = 4 then
        rotate_cv src dstSize 180 (width dstSize - 1) (height dstSize - 1)
      else if augmentationIndex = 5 then rotate_cv src dstSize 90 0 (height dstSize - 1)
      else if augmentationIndex = 6 then
        (let tmpOutputMat = rotate_cv src dstSize 270 (width dstSize - 1) 0
         in flip_cv tmpOutputMat 0)
      else if augmentationIndex = 7 then
        (let tmpOutputMat = rotate_cv src dstSize 270 (width dstSize - 1) 0
         in flip_cv tmpOutputMat 1)
      else src)"

section \<open>Integer and rounding helpers of the C++ source\<close>

text \<open>
  C++ integer division and remainder truncate towards zero. \<open>std::lround\<close> rounds to the
  nearest integer, halfway cases away from zero. \<open>lround_ceil a b\<close> is the expression
  \<open>static_cast<int>(std::lround(std::ceil(static_cast<double>(a) / b)))\<close>: for 32-bit
  operands the quotient in \<open>double\<close> never crosses an integer, so its ceiling is that of
  the exact quotient. A zero divisor gives an infinity or a NaN; \<open>std::lround\<close> of such a
  value raises no error and returns a number the language leaves unspecified, here the
  unknown \<open>nonfinite_to_int\<close>.
\<close>

definition nonfinite_to_int :: int where
  "nonfinite_to_int = undefined"

definition tdiv :: "int \<Rightarrow> int \<Rightarrow> int" where
  "tdiv a b = sgn a * sgn b * (\<bar>a\<bar> div \<bar>b\<bar>)"

definition tmod :: "int \<Rightarrow> int \<Rightarrow> int" where
  "tmod a b = a - b * tdiv a b"

definition lround :: "rat \<Rightarrow> int" where
  "lround q = (if 0 \<le> q then \<lfloor>q + 1 / 2\<rfloor> else - \<lfloor>- q + 1 / 2\<rfloor>)"

definition lround_ceil :: "int \<Rightarrow> int \<Rightarrow> int" where
  "lround_ceil a b =
     (if b = 0 then nonfinite_to_int else \<lceil>rat_of_int a / rat_of_int b\<rceil>)"

section \<open>EdgePadder: \<open>padRoi\<close>\<close>

definition padRoi :: "'a mat \<Rightarrow> rect2i \<Rightarrow> error + 'a mat" where
  "padRoi input r =
     (let tl_x = rx r;
          tl_y = ry r;
          br_x = rx r + rwidth r;
          br_y = ry r + rheight r;
          w0 = rwidth r;
          h0 = rheight r
      in if tl_x < 0 \<or> tl_y < 0 \<or> br_x > cols input \<or> br_y > rows input then
           let (w1, padLeft, tl_x1) =
                 (if tl_x < 0 then (w0 + tl_x, - tl_x, 0) else (w0, 0, tl_x));
               (h1, padTop, tl_y1) =
                 (if tl_y < 0 then (h0 + tl_y, - tl_y, 0) else (h0, 0, tl_y));
               (w2, padRight) =
                 (if br_x > cols input then (w1 - (br_x - cols input), br_x - cols input)
                  else (w1, 0));
               (h2, padBottom) =
                 (if br_y > rows input then (h1 - (br_y - rows input), br_y - rows input)
                  else (h1, 0))
           in then_do (roi input \<lparr>rx = tl_x1, ry = tl_y1, rwidth = w2, rheight = h2\<rparr>)
                (\<lambda>clipped. copyMakeBorder clipped padTop padBottom padLeft padRight)
         else roi input \<lparr>rx = tl_x, ry = tl_y, rwidth = w0, rheight = h0\<rparr>)"

text \<open>
  The contract of the extraction in the words of the specification, for comparison with
  \<open>padRoi\<close>: a tile of the requested width and height whose pixel at \<open>(i, j)\<close> is the
  source pixel nearest to the requested position \<open>(x + i, y + j)\<close>, which is that very
  position when it lies inside the source.
\<close>

text \<open>
  The sums and the negations \<open>padRoi\<close> computes from a rectangle stay inside the 32-bit
  range, and so do the dimensions of the image.
\<close>

definition padRoi_in_range :: "'a mat \<Rightarrow> rect2i \<Rightarrow> bool" where
  "padRoi_in_range src r \<longleftrightarrow>
     int32 (rx r) \<and> int32 (ry r) \<and> int32 (rwidth r) \<and> int32 (rheight r)
     \<and> int32 (rx r + rwidth r) \<and> int32 (ry r + rheight r)
     \<and> int32 (- rx r) \<and> int32 (- ry r) \<and> int32 (rows src) \<and> int32 (cols src)"

definition extract_spec :: "'a mat \<Rightarrow> rect2i \<Rightarrow> 'a mat" where
  "extract_spec src r =
     mat_of (nat (rheight r)) (nat (rwidth r))
       (\<lambda>j i. at_px src (clamp 0 (rows src - 1) (ry r + int j))
                        (clamp 0 (cols src - 1) (rx r + int i)))"

section \<open>BlendWeightGenerator: \<open>createTileWeights\<close>\<close>

text \<open>
  The two loops \<open>for (int i = 1; i < height; ++i)\<close> and \<open>for (int i = 1; i < width; ++i)\<close>
  run over the index lists given as last argument. The array \<open>weights\<close> holds, in this
  order, the top, right, bottom and left mask.
\<close>

fun ramp_rows :: "fpx mat \<Rightarrow> int \<Rightarrow> nat list \<Rightarrow> error + fpx mat" where
  "ramp_rows m h [] = Inr m"
| "ramp_rows m h (i # rest) =
     (let alpha = rat_of_nat i / rat_of_int h
      in then_do (set_row m (int i - 1) (Px3 alpha alpha alpha)) (\<lambda>m'. ramp_rows m' h rest))"

fun ramp_cols :: "fpx mat \<Rightarrow> int \<Rightarrow> nat list \<Rightarrow> error + fpx mat" where
  "ramp_cols m w [] = Inr m"
| "ramp_cols m w (i # rest) =
     (let alpha = rat_of_nat i / rat_of_int w
      in then_do (set_col m (int i - 1) (Px3 alpha alpha alpha)) (\<lambda>m'. ramp_cols m' w rest))"

definition createTileWeights :: "point2i \<Rightarrow> size2i \<Rightarrow> error + fpx mat list" where
  "createTileWeights overlap sz =
     (let ones = mat_of (nat (height sz)) (nat (width sz)) (\<lambda>y x. Px3 1 1 1);
          h = py overlap + 1;
          w = px overlap + 1
      in then_do (ramp_rows ones h [1..<nat h]) (\<lambda>weights0.
         then_do (ramp_cols ones w [1..<nat w]) (\<lambda>weights3.
           Inr [weights0, flip_cv weights3 1, flip_cv weights0 0, weights3])))"

text \<open>
  The masks in the words of the specification, for comparison with \<open>createTileWeights\<close>:
  along the ramp, position \<open>i\<close> counted from 1 has weight \<open>i / (overlap + 1)\<close> for the
  first \<open>overlap\<close> positions and weight 1 elsewhere; \<open>k\<close> counts from 0 here.
\<close>

definition ramp_weight :: "int \<Rightarrow> nat \<Rightarrow> fpx" where
  "ramp_weight ov k =
     (if int k < ov then gray (rat_of_nat (k + 1) / rat_of_int (ov + 1)) else gray 1)"

section \<open>The render session set up by \<open>load\<close>\<close>

text \<open>
  \<open>RenderConfig\<close> (its fields \<open>height\<close> and \<open>width\<close> are called \<open>tileHeight\<close> and
  \<open>tileWidth\<close> here, the device and precision fields play no role) and the members of
  \<open>Img2Img\<close> that \<open>load\<close> derives from it. The overlap fractions are exact rationals; for
  the fractions the command line offers (0, 1/32, 1/16, 1/8) the products in \<open>double\<close>
  are exact as well.
\<close>

record point2d =
  dx :: rat
  dy :: rat

record renderConfig =
  nbBatches :: int
  channels :: int
  tileHeight :: int
  tileWidth :: int
  scaling :: point2i
  overlap :: point2d
  tta :: bool

record img2img =
  renderConfig :: renderConfig
  inputTileSize :: size2i
  outputTileSize :: size2i
  scaledInputTileSize :: size2i
  scaledOutputTileSize :: size2i
  inputOverlap :: point2i
  scaledOutputOverlap :: point2i
  weights :: "fpx mat list"

text \<open>
  The part of \<open>load\<close> after the engine has been deserialised: \<open>inDims\<close> and \<open>outDims\<close>
  are the shapes the execution context reports for the input and the output tensor
  (batch, channels, height, width). \<open>load\<close> rejects an engine whose tensors do not have
  four dimensions.
\<close>

definition load :: "renderConfig \<Rightarrow> int list \<Rightarrow> int list \<Rightarrow> error + img2img" where
  "load config inDims outDims =
     (if length inDims \<noteq> 4 \<or> length outDims \<noteq> 4 then Inl InvalidEngine
      else
        let its = \<lparr>width = inDims ! 3, height = inDims ! 2\<rparr>;
            ots = \<lparr>width = outDims ! 3, height = outDims ! 2\<rparr>;
            sots = \<lparr>width = width its * px (scaling config),
                    height = width its * py (scaling config)\<rparr>;
            sits = \<lparr>width = (if width sots = 0 then nonfinite_to_int
                              else lround (rat_of_int (width ots) / rat_of_int (width sots)
                                             * rat_of_int (width its))),
                    height = (if height sots = 0 then nonfinite_to_int
                              else lround (rat_of_int (height ots) / rat_of_int (height sots)
                                             * rat_of_int (height its)))\<rparr>;
            iov = \<lparr>px = lround (rat_of_int (width its) * dx (overlap config)),
                   py = lround (rat_of_int (height its) * dy (overlap config))\<rparr>;
            soov = \<lparr>px = lround (rat_of_int (width sots) * dx (overlap config)),
                    py = lround (rat_of_int (height sots) * dy (overlap config))\<rparr>
        in then_do (createTileWeights soov ots) (\<lambda>ws.
             Inr \<lparr>renderConfig = config,
                  inputTileSize = its,
                  outputTileSize = ots,
                  scaledInputTileSize = sits,
                  scaledOutputTileSize = sots,
                  inputOverlap = iov,
                  scaledOutputOverlap = soov,
                  weights = ws\<rparr>))"


text \<open>
  The configuration of the concrete scenario of the specification: scale factor 2, tiles
  of 256 by 256 pixels going in and 512 by 512 coming out, overlap fraction 1/16, batch
  size 4, no augmentation.
\<close>

definition scenario_config :: renderConfig where
  "scenario_config =
     \<lparr>nbBatches = 4, channels = 3, tileHeight = 256, tileWidth = 256,
      scaling = \<lparr>px = 2, py = 2\<rparr>, overlap = \<lparr>dx = 1 / 16, dy = 1 / 16\<rparr>, tta = False\<rparr>"

definition scenario_session :: img2img where
  "scenario_session = projr (load scenario_config [4, 3, 256, 256] [4, 3, 512, 512])"





section \<open>TileGeometryPlanner: \<open>calculateTiles\<close>\<close>

definition inputTileRectAt :: "img2img \<Rightarrow> int \<Rightarrow> int \<Rightarrow> rect2i" where
  "inputTileRectAt s i j =
     \<lparr>rx = - (tdiv (width (inputTileSize s) - width (scaledInputTileSize s)) 2)
             + (i * width (scaledInputTileSize s)) - (i * px (inputOverlap s)),
      ry = - (tdiv (height (inputTileSize s) - height (scaledInputTileSize s)) 2)
             + (j * height (scaledInputTileSize s)) - (j * py (inputOverlap s)),
      rwidth = width (inputTileSize s),
      rheight = height (inputTileSize s)\<rparr>"

definition outputTileRectAt :: "img2img \<Rightarrow> rect2i \<Rightarrow> int \<Rightarrow> int \<Rightarrow> rect2i" where
  "outputTileRectAt s outputRect i j =
     (let x = i * width (outputTileSize s) - (i * px (scaledOutputOverlap s));
          y = j * height (outputTileSize s) - (j * py (scaledOutputOverlap s))
      in \<lparr>rx = x,
          ry = y,
          rwidth = (if x + width (outputTileSize s) > rwidth outputRect
                    then rwidth outputRect - x else width (outputTileSize s)),
          rheight = (if y + height (outputTileSize s) > rheight outputRect
                     then rheight outputRect - y else height (outputTileSize s))\<rparr>)"

text \<open>
  The nested loops run \<open>i\<close> over the columns of the grid and, inside, \<open>j\<close> over its rows;
  both vectors are filled in that order.
\<close>

definition tileGrid :: "int \<Rightarrow> int \<Rightarrow> (int \<times> int) list" where
  "tileGrid tx ty = concat (map (\<lambda>i. map (\<lambda>j. (int i, int j)) [0..<nat ty]) [0..<nat tx])"

definition calculateTiles ::
  "img2img \<Rightarrow> rect2i \<Rightarrow> rect2i \<Rightarrow> int \<times> rect2i list \<times> rect2i list" where
  "calculateTiles s inputRect outputRect =
     (let tiling_x = lround_ceil (rwidth inputRect - px (inputOverlap s))
                       (width (scaledInputTileSize s) - px (inputOverlap s));
          tiling_y = lround_ceil (rheight inputRect - py (inputOverlap s))
                       (height (scaledInputTileSize s) - py (inputOverlap s));
          tileCount = tiling_x * tiling_y
      in (tileCount,
          map (\<lambda>(i, j). inputTileRectAt s i j) (tileGrid tiling_x tiling_y),
          map (\<lambda>(i, j). outputTileRectAt s outputRect i j) (tileGrid tiling_x tiling_y)))"



text \<open>
  Coverage in the words of the specification: a point lies in the canvas rectangle if
  and only if it lies in one of the output rectangles.
\<close>

definition inside :: "rect2i \<Rightarrow> int \<Rightarrow> int \<Rightarrow> bool" where
  "inside r x y \<longleftrightarrow> rx r \<le> x \<and> x < rx r + rwidth r \<and> ry r \<le> y \<and> y < ry r + rheight r"

definition covers :: "rect2i list \<Rightarrow> rect2i \<Rightarrow> bool" where
  "covers rects canvas \<longleftrightarrow> (\<forall>x y. inside canvas x y = list_ex (\<lambda>r. inside r x y) rects)"

section \<open>Compositor: \<open>applyBlending\<close>\<close>

text \<open>
  \<open>render\<close> calls \<open>applyBlending\<close> with the same matrix as source and destination, so the
  up to four multiplications act one after the other on that matrix; this is the call
  modelled here.
\<close>

definition applyBlending :: "img2img \<Rightarrow> fpx mat \<Rightarrow> rect2i \<Rightarrow> rect2i \<Rightarrow> error + fpx mat" where
  "applyBlending s tile srcRect dstRect =
     then_do (if rx srcRect > rx dstRect then multiply_cv tile (weights s ! 3)
              else Inr tile) (\<lambda>t1.
     then_do (if ry srcRect > ry dstRect then multiply_cv t1 (weights s ! 0)
              else Inr t1) (\<lambda>t2.
     then_do (if rx srcRect + rwidth srcRect < rwidth dstRect then multiply_cv t2 (weights s ! 1)
              else Inr t2) (\<lambda>t3.
       if ry srcRect + rheight srcRect < rheight dstRect then multiply_cv t3 (weights s ! 2)
       else Inr t3)))"

section \<open>The executor boundary: \<open>infer\<close>\<close>

text \<open>
  \<open>infer\<close> checks the batch and every tile against the configuration, then hands the
  batch to the TensorRT execution context. The context is a parameter \<open>enqueue\<close>: it
  returns the output tiles, or \<open>None\<close> when \<open>enqueueV3\<close> reports failure.
\<close>

type_synonym executor = "u8 px3 mat list \<Rightarrow> fpx mat list option"

definition infer :: "renderConfig \<Rightarrow> executor \<Rightarrow> u8 px3 mat list \<Rightarrow> error + fpx mat list" where
  "infer config enqueue inputs =
     (if int (length inputs) \<noteq> nbBatches config then Inl BatchSizeMismatch
      else if list_ex (\<lambda>m. 3 \<noteq> channels config \<or> rows m \<noteq> tileHeight config
                              \<or> cols m \<noteq> tileWidth config) inputs
      then Inl ShapeMismatch
      else case enqueue inputs of None \<Rightarrow> Inl EnqueueFailed | Some outputs \<Rightarrow> Inr outputs)"

section \<open>BatchPipeline: \<open>render\<close>\<close>

text \<open>
  The variables \<open>render\<close> changes while it runs: the queue \<open>tileIndices\<close>, the batch
  under construction, the two augmentation buffers and the canvas \<open>output\<close>, which is
  the caller's matrix, passed by reference. A function that can stop the call returns
  either the new state or the error together with the canvas as it stands in the
  caller's matrix at that moment.
\<close>

record render_state =
  tileIndices :: "(int \<times> int) list"
  inputTiles :: "u8 px3 mat list"
  ttaOutputTile :: "fpx mat"
  tmpOutputMat :: "fpx mat"
  "output" :: "fpx mat"

definition or_abort :: "fpx mat \<Rightarrow> error + 'a \<Rightarrow> ('a \<Rightarrow> (error \<times> fpx mat) + 'b) \<Rightarrow> (error \<times> fpx mat) + 'b" where
  "or_abort canvas r f = (case r of Inl e \<Rightarrow> Inl (e, canvas) | Inr v \<Rightarrow> f v)"

definition ttaSize :: int where
  "ttaSize = 8"

text \<open>
  The block "Postprocess TTA": it returns the new state and the matrix \<open>outputTile\<close>
  points to afterwards.
\<close>

definition postprocess_tta ::
  "img2img \<Rightarrow> fpx mat \<Rightarrow> int \<Rightarrow> render_state \<Rightarrow> error + (render_state \<times> fpx mat)" where
  "postprocess_tta s outputTile augmentationIndex st =
     (if augmentationIndex = 0 then
        then_do (add_cv (map (map (\<lambda>_. 0)) (ttaOutputTile st)) outputTile) (\<lambda>acc.
          Inr (st\<lparr>ttaOutputTile := acc\<rparr>, outputTile))
      else
        let tmp = reverseAugmentation outputTile (outputTileSize s) augmentationIndex
        in then_do (add_cv tmp (ttaOutputTile st)) (\<lambda>acc.
             if augmentationIndex = ttaSize - 1
             then Inr (st\<lparr>tmpOutputMat := tmp,
                          ttaOutputTile := multiply_scalar acc (Px3 (1 / 8) (1 / 8) (1 / 8))\<rparr>,
                       tmp)
             else Inr (st\<lparr>tmpOutputMat := tmp, ttaOutputTile := acc\<rparr>, outputTile)))"

text \<open>
  "Add tile to output": the top-left part of the tile, of the size of the output
  rectangle, is added to the canvas inside that rectangle.
\<close>

definition add_tile :: "fpx mat \<Rightarrow> fpx mat \<Rightarrow> rect2i \<Rightarrow> error + fpx mat" where
  "add_tile canvas tile outputTileRect =
     then_do (roi tile \<lparr>rx = 0, ry = 0, rwidth = rwidth outputTileRect,
                        rheight = rheight outputTileRect\<rparr>) (\<lambda>part.
     then_do (roi canvas outputTileRect) (\<lambda>region.
     then_do (add_cv part region) (\<lambda>acc.
       Inr (write_roi canvas outputTileRect acc))))"

text \<open>The body of the postprocessing loop for one entry taken from the queue.\<close>

definition postprocess_tile ::
  "img2img \<Rightarrow> rect2i list \<Rightarrow> rect2i \<Rightarrow> fpx mat list \<Rightarrow> int \<Rightarrow> int \<Rightarrow> int \<Rightarrow> render_state
     \<Rightarrow> (error \<times> fpx mat) + render_state" where
  "postprocess_tile s outputTileRects outputRect outputTiles batchIndex tileIndex
       augmentationIndex st =
     or_abort (output st) (vec_at outputTiles batchIndex) (\<lambda>outputTile.
     or_abort (output st) (vec_at outputTileRects tileIndex) (\<lambda>outputTileRect.
     or_abort (output st)
       (if tta (renderConfig s) then postprocess_tta s outputTile augmentationIndex st
        else Inr (st, outputTile)) (\<lambda>(st1, tile).
       if \<not> (\<not> tta (renderConfig s) \<or> augmentationIndex = ttaSize - 1) then Inr st1
       else
         or_abort (output st1)
           (if dx (overlap (renderConfig s)) \<noteq> 0 \<or> dy (overlap (renderConfig s)) \<noteq> 0
            then applyBlending s tile outputTileRect outputRect else Inr tile) (\<lambda>blended.
         or_abort (output st1) (add_tile (output st1) blended outputTileRect) (\<lambda>canvas.
           Inr (st1\<lparr>output := canvas,
                    tmpOutputMat := (if tta (renderConfig s) then blended
                                     else tmpOutputMat st1)\<rparr>))))))"

text \<open>
  The loop \<open>for (batchIndex = 0; batchIndex < batchSize; ++batchIndex)\<close> over the slots of
  the batch: it reads the front of the queue, leaves the loop when that entry carries
  the index \<open>tileCount\<close>, and removes the entry otherwise.
\<close>

fun postprocess ::
  "img2img \<Rightarrow> int \<Rightarrow> rect2i list \<Rightarrow> rect2i \<Rightarrow> fpx mat list \<Rightarrow> int list \<Rightarrow> render_state
     \<Rightarrow> (error \<times> fpx mat) + render_state" where
  "postprocess s tileCount outputTileRects outputRect outputTiles [] st = Inr st"
| "postprocess s tileCount outputTileRects outputRect outputTiles (batchIndex # slots) st =
     (case tileIndices st of
        [] \<Rightarrow> Inl (IndexOutOfRange, output st)
      | (tileIndex, augmentationIndex) # queue \<Rightarrow>
          if tileIndex = tileCount then Inr st
          else
            (case postprocess_tile s outputTileRects outputRect outputTiles batchIndex
                    tileIndex augmentationIndex (st\<lparr>tileIndices := queue\<rparr>) of
               Inl e \<Rightarrow> Inl e
             | Inr st' \<Rightarrow>
                 postprocess s tileCount outputTileRects outputRect outputTiles slots st'))"

text \<open>One pass through the body of the loop over \<open>stepIndex\<close>.\<close>

definition render_step ::
  "img2img \<Rightarrow> executor \<Rightarrow> u8 px3 mat \<Rightarrow> int \<Rightarrow> rect2i list \<Rightarrow> rect2i list \<Rightarrow> rect2i
     \<Rightarrow> int \<Rightarrow> render_state \<Rightarrow> (error \<times> fpx mat) + render_state" where
  "render_step s enqueue input tileCount inputTileRects outputTileRects outputRect
       stepIndex st =
     (let batchSize = nbBatches (renderConfig s);
          stepsPerTile = (if tta (renderConfig s) then ttaSize else 1);
          tileIndex = tdiv stepIndex stepsPerTile;
          augmentationIndex = tmod stepIndex stepsPerTile;
          batchIndex = tmod stepIndex batchSize;
          st1 = st\<lparr>tileIndices := tileIndices st @ [(tileIndex, augmentationIndex)]\<rparr>
      in or_abort (output st1)
           (if tileIndex < tileCount then
              then_do (vec_at inputTileRects tileIndex) (\<lambda>r.
              then_do (padRoi input r) (\<lambda>inputTile.
                if tta (renderConfig s) \<and> augmentationIndex \<noteq> 0
                then Inr (applyAugmentation inputTile (inputTileSize s) augmentationIndex)
                else Inr inputTile))
            else Inr (zeros (inputTileSize s))) (\<lambda>tile.
         let st2 = st1\<lparr>inputTiles := inputTiles st1 @ [tile]\<rparr>
         in if batchIndex \<noteq> batchSize - 1 then Inr st2
            else
              or_abort (output st2) (infer (renderConfig s) enqueue (inputTiles st2))
                (\<lambda>outputTiles.
                   case postprocess s tileCount outputTileRects outputRect outputTiles
                          (map int [0..<nat batchSize]) st2 of
                     Inl e \<Rightarrow> Inl e
                   | Inr st3 \<Rightarrow> Inr (st3\<lparr>inputTiles := []\<rparr>))))"

fun render_loop ::
  "(int \<Rightarrow> render_state \<Rightarrow> (error \<times> fpx mat) + render_state) \<Rightarrow> int list \<Rightarrow> render_state
     \<Rightarrow> (error \<times> fpx mat) + render_state" where
  "render_loop step [] st = Inr st"
| "render_loop step (stepIndex # rest) st =
     (case step stepIndex st of Inl e \<Rightarrow> Inl e | Inr st' \<Rightarrow> render_loop step rest st')"

text \<open>
  The end of \<open>render\<close>: \<open>convertTo(CV_8UC3, 255.0)\<close> scales, rounds to the nearest integer
  (halfway cases to the even one) and saturates to 0..255; \<open>cvtColor\<close> with
  \<open>COLOR_RGB2BGR\<close> exchanges the first and the third channel.
\<close>

definition rint :: "rat \<Rightarrow> int" where
  "rint q =
     (let f = \<lfloor>q\<rfloor>; d = q - rat_of_int f
      in if d < 1 / 2 then f else if 1 / 2 < d then f + 1 else if even f then f else f + 1)"

definition saturate_u8 :: "rat \<Rightarrow> u8" where
  "saturate_u8 q = word_of_int (clamp 0 255 (rint q))"

definition convertTo_8U :: "fpx mat \<Rightarrow> rat \<Rightarrow> u8 px3 mat" where
  "convertTo_8U m alpha = map (map (map_px3 (\<lambda>v. saturate_u8 (v * alpha)))) m"

definition rgb2bgr :: "'a px3 \<Rightarrow> 'a px3" where
  "rgb2bgr p = (case p of Px3 r g b \<Rightarrow> Px3 b g r)"

definition cvtColor_RGB2BGR :: "'a px3 mat \<Rightarrow> 'a px3 mat" where
  "cvtColor_RGB2BGR m = map (map rgb2bgr) m"

text \<open>\<open>GpuMat::create(rows, cols, type)\<close> followed by \<open>setTo(Scalar(0, 0, 0))\<close>.\<close>

definition create_zero :: "int \<Rightarrow> int \<Rightarrow> error + 'a::zero mat" where
  "create_zero r c =
     (if r < 0 \<or> c < 0 then Inl CvAssertion else Inr (zeros \<lparr>width = c, height = r\<rparr>))"

text \<open>
  \<open>render\<close> up to the end of the loop over \<open>stepIndex\<close>: the state after the last step, or
  the error that stopped the call together with the canvas at that moment. The two
  augmentation buffers are allocated by \<open>load\<close> with the size of an output tile when
  augmentation is on and are empty otherwise; their first contents are never read.
\<close>

definition render_run :: "img2img \<Rightarrow> executor \<Rightarrow> u8 px3 mat \<Rightarrow> (error \<times> fpx mat) + render_state" where
  "render_run s enqueue input =
     or_abort []
       (create_zero (rows input * px (scaling (renderConfig s)))
          (cols input * py (scaling (renderConfig s)))) (\<lambda>output0.
     let inputRect = \<lparr>rx = 0, ry = 0, rwidth = cols input, rheight = rows input\<rparr>;
         outputRect = \<lparr>rx = 0, ry = 0, rwidth = cols output0, rheight = rows output0\<rparr>;
         (tileCount, inputTileRects, outputTileRects) = calculateTiles s inputRect outputRect;
         batchSize = nbBatches (renderConfig s);
         stepsPerTile = (if tta (renderConfig s) then ttaSize else 1);
         batchCount = lround_ceil (tileCount * stepsPerTile) batchSize;
         stepCount = batchCount * batchSize;
         buffer = (if tta (renderConfig s) then zeros (outputTileSize s) else []);
         st0 = \<lparr>tileIndices = [], inputTiles = [], ttaOutputTile = buffer,
                tmpOutputMat = buffer, output = output0\<rparr>
     in render_loop
          (render_step s enqueue input tileCount inputTileRects outputTileRects outputRect)
          (map int [0..<nat stepCount]) st0)"

text \<open>
  \<open>render\<close> returns \<open>true\<close> with the converted image in the caller's matrix (\<open>Inr\<close>), or
  \<open>false\<close> (\<open>Inl\<close>, with the reason and what the caller's matrix \<open>output\<close> holds then: the
  floating-point canvas as far as it was filled).
\<close>

definition render :: "img2img \<Rightarrow> executor \<Rightarrow> u8 px3 mat \<Rightarrow> (error \<times> fpx mat) + u8 px3 mat" where
  "render s enqueue input =
     (case render_run s enqueue input of
        Inl e \<Rightarrow> Inl e
      | Inr st \<Rightarrow> Inr (cvtColor_RGB2BGR (convertTo_8U (output st) 255)))"

section \<open>Small sessions and executors used as examples\<close>

text \<open>
  Tiles of one pixel, scale factor 1, no overlap: with augmentation and a batch of eight,
  and without augmentation and a batch of two. A session whose horizontal scale factor is
  2 and whose vertical one is 1, with an engine that maps a tile of one pixel to a tile
  two pixels wide. The executors return, in slot \<open>k\<close> of the batch, a tile of the given
  size with all channels equal to \<open>k / 8\<close>, or all channels equal to 1; the last one
  accepts a batch only if its first tile carries the pixel value 10.
\<close>

definition pixel_config :: "int \<Rightarrow> bool \<Rightarrow> renderConfig" where
  "pixel_config batch augment =
     \<lparr>nbBatches = batch, channels = 3, tileHeight = 1, tileWidth = 1,
      scaling = \<lparr>px = 1, py = 1\<rparr>, overlap = \<lparr>dx = 0, dy = 0\<rparr>, tta = augment\<rparr>"

definition tta_session :: img2img where
  "tta_session = projr (load (pixel_config 8 True) [8, 3, 1, 1] [8, 3, 1, 1])"

definition pair_session :: img2img where
  "pair_session = projr (load (pixel_config 2 False) [2, 3, 1, 1] [2, 3, 1, 1])"

definition wide_config :: renderConfig where
  "wide_config =
     \<lparr>nbBatches = 1, channels = 3, tileHeight = 1, tileWidth = 1,
      scaling = \<lparr>px = 2, py = 1\<rparr>, overlap = \<lparr>dx = 0, dy = 0\<rparr>, tta = False\<rparr>"

definition wide_session :: img2img where
  "wide_session = projr (load wide_config [1, 3, 1, 1] [1, 3, 1, 2])"

definition slot_executor :: executor where
  "slot_executor batch =
     Some (map (\<lambda>k. [[Px3 (rat_of_nat k / 8) (rat_of_nat k / 8) (rat_of_nat k / 8)]])
             [0..<length batch])"

definition white_executor :: "nat \<Rightarrow> executor" where
  "white_executor w batch = Some (map (\<lambda>t. [replicate w (Px3 1 1 1)]) batch)"

definition picky_executor :: executor where
  "picky_executor batch =
     (if batch \<noteq> [] \<and> hd batch = [[Px3 10 10 10]]
      then Some (map (\<lambda>t. [[Px3 1 1 1]]) batch) else None)"

section \<open>Facts about matrices\<close>

lemma length_mat_of: "length (mat_of r c f) = r"
  by (simp add: mat_of_def)

lemma nth_mat_of: "y < r \<Longrightarrow> x < c \<Longrightarrow> mat_of r c f ! y ! x = f y x"
  by (simp add: mat_of_def)

lemma is_mat_mat_of: "is_mat r c (mat_of r c f)"
  by (auto simp: is_mat_def mat_of_def)

lemma rows_mat_of: "rows (mat_of r c f) = int r"
  by (simp add: rows_def mat_of_def)

lemma cols_mat_of: "0 < r \<Longrightarrow> cols (mat_of r c f) = int c"
  by (cases r) (simp_all add: cols_def mat_of_def upt_conv_Cons del: upt_Suc)

lemma mat_of_cong: "(\<And>y x. y < r \<Longrightarrow> x < c \<Longrightarrow> f y x = g y x) \<Longrightarrow> mat_of r c f = mat_of r c g"
  by (simp add: mat_of_def)

lemma is_mat_rows: "is_mat r c m \<Longrightarrow> rows m = int r"
  by (simp add: is_mat_def rows_def)

lemma is_mat_cols: "is_mat r c m \<Longrightarrow> 0 < r \<Longrightarrow> cols m = int c"
  by (cases m) (auto simp: is_mat_def cols_def)

lemma is_mat_nth_length: "is_mat r c m \<Longrightarrow> y < r \<Longrightarrow> length (m ! y) = c"
  by (simp add: is_mat_def)

lemma is_mat_eq_mat_of:
  assumes "is_mat r c m"
  shows "m = mat_of r c (\<lambda>y x. m ! y ! x)"
proof -
  have row: "map (\<lambda>x. m ! y ! x) [0..<c] = m ! y" if "y < r" for y
    using map_nth [of "m ! y"] is_mat_nth_length [OF assms that] by simp
  have "mat_of r c (\<lambda>y x. m ! y ! x) = map (\<lambda>y. m ! y) [0..<r]"
    unfolding mat_of_def by (rule map_cong) (simp_all add: row)
  also have "\<dots> = m"
    using map_nth [of m] assms by (simp add: is_mat_def)
  finally show ?thesis by simp
qed

lemma mat_eqI:
  assumes "is_mat r c a" "is_mat r c b"
    and "\<And>y x. y < r \<Longrightarrow> x < c \<Longrightarrow> a ! y ! x = b ! y ! x"
  shows "a = b"
proof -
  have "a = mat_of r c (\<lambda>y x. a ! y ! x)" using assms(1) by (rule is_mat_eq_mat_of)
  also have "\<dots> = mat_of r c (\<lambda>y x. b ! y ! x)" using assms(3) by (rule mat_of_cong)
  also have "\<dots> = b" using assms(2) by (rule is_mat_eq_mat_of [symmetric])
  finally show ?thesis .
qed

lemma flip0_mat: "is_mat r c m \<Longrightarrow> flip_cv m 0 = mat_of r c (\<lambda>y x. m ! (r - 1 - y) ! x)"
  by (rule mat_eqI [of r c])
     (auto simp: flip_cv_def is_mat_def nth_mat_of is_mat_mat_of [unfolded is_mat_def] rev_nth)

lemma flip1_mat: "is_mat r c m \<Longrightarrow> flip_cv m 1 = mat_of r c (\<lambda>y x. m ! y ! (c - 1 - x))"
  by (rule mat_eqI [of r c])
     (auto simp: flip_cv_def is_mat_def nth_mat_of is_mat_mat_of [unfolded is_mat_def] rev_nth)

lemma nat_one_plus: "nat (1 + int y) = Suc y"
  by simp

lemma rotate90_sq:
  "is_mat n n m \<Longrightarrow>
   rotate_cv m \<lparr>width = int n, height = int n\<rparr> 90 0 (int n - 1)
     = mat_of n n (\<lambda>y x. m ! x ! (n - 1 - y))"
  unfolding rotate_cv_def
  apply simp
  apply (rule mat_of_cong)
  apply (cases "n = 0")
   apply simp
  apply (simp add: rot_cos_def rot_sin_def Let_def is_mat_rows is_mat_cols at_px_def)
  apply (auto simp: nat_diff_distrib' algebra_simps nat_one_plus)
  done

lemma rotate270_sq:
  "is_mat n n m \<Longrightarrow>
   rotate_cv m \<lparr>width = int n, height = int n\<rparr> 270 (int n - 1) 0
     = mat_of n n (\<lambda>y x. m ! (n - 1 - x) ! y)"
  unfolding rotate_cv_def
  apply simp
  apply (rule mat_of_cong)
  apply (cases "n = 0")
   apply simp
  apply (simp add: rot_cos_def rot_sin_def Let_def is_mat_rows is_mat_cols at_px_def)
  apply (auto simp: nat_diff_distrib' algebra_simps nat_one_plus)
  done

lemma rotate180_mat:
  "is_mat r c m \<Longrightarrow>
   rotate_cv m \<lparr>width = int c, height = int r\<rparr> 180 (int c - 1) (int r - 1)
     = mat_of r c (\<lambda>y x. m ! (r - 1 - y) ! (c - 1 - x))"
  unfolding rotate_cv_def
  apply simp
  apply (rule mat_of_cong)
  apply (cases "r = 0")
   apply simp
  apply (simp add: rot_cos_def rot_sin_def Let_def is_mat_rows is_mat_cols at_px_def)
  apply (auto simp: nat_diff_distrib' algebra_simps nat_one_plus)
  done


lemma is_mat_flip0: "is_mat r c m \<Longrightarrow> is_mat r c (flip_cv m 0)"
  by (simp add: flip0_mat is_mat_mat_of)

lemma is_mat_flip1: "is_mat r c m \<Longrightarrow> is_mat r c (flip_cv m 1)"
  by (simp add: flip1_mat is_mat_mat_of)

section \<open>The augmentation codec on square tiles\<close>

lemma roundtrip_square:
  assumes "is_mat n n t"
  shows "reverseAugmentation (applyAugmentation t \<lparr>width = int n, height = int n\<rparr> k)
           \<lparr>width = int n, height = int n\<rparr> k = t"
proof -
  note m = is_mat_mat_of [of n n]
  have ext: "t = mat_of n n (\<lambda>y x. t ! y ! x)"
    using assms by (rule is_mat_eq_mat_of)
  have A: "n - Suc (n - Suc y) = y" if "y < n" for y using that by simp
  consider "k = 1" | "k = 2" | "k = 3" | "k = 4" | "k = 5" | "k = 6" | "k = 7"
    | "k \<noteq> 1 \<and> k \<noteq> 2 \<and> k \<noteq> 3 \<and> k \<noteq> 4 \<and> k \<noteq> 5 \<and> k \<noteq> 6 \<and> k \<noteq> 7"
    by blast
  then show ?thesis
  proof cases
    case 1
    have "flip_cv (flip_cv t 0) 0 = t"
      by (simp add: flip_cv_def)
    with 1 show ?thesis by (simp add: applyAugmentation_def reverseAugmentation_def)
  next
    case 2
    have "flip_cv (flip_cv t 1) 1 = t"
      by (simp add: flip_cv_def rev_map [symmetric] o_def map_idI)
    with 2 show ?thesis by (simp add: applyAugmentation_def reverseAugmentation_def)
  next
    case 3
    have "rotate_cv (rotate_cv t \<lparr>width = int n, height = int n\<rparr> 90 0 (int n - 1))
            \<lparr>width = int n, height = int n\<rparr> 270 (int n - 1) 0 = mat_of n n (\<lambda>y x. t ! y ! x)"
      by (simp add: rotate90_sq [OF assms] rotate270_sq [OF m] nth_mat_of A cong: mat_of_cong)
    with 3 ext show ?thesis by (simp add: applyAugmentation_def reverseAugmentation_def)
  next
    case 4
    have "rotate_cv (rotate_cv t \<lparr>width = int n, height = int n\<rparr> 180 (int n - 1) (int n - 1))
            \<lparr>width = int n, height = int n\<rparr> 180 (int n - 1) (int n - 1) = mat_of n n (\<lambda>y x. t ! y ! x)"
      by (simp add: rotate180_mat [OF assms] rotate180_mat [OF m] nth_mat_of A cong: mat_of_cong)
    with 4 ext show ?thesis by (simp add: applyAugmentation_def reverseAugmentation_def)
  next
    case 5
    have "rotate_cv (rotate_cv t \<lparr>width = int n, height = int n\<rparr> 270 (int n - 1) 0)
            \<lparr>width = int n, height = int n\<rparr> 90 0 (int n - 1) = mat_of n n (\<lambda>y x. t ! y ! x)"
      by (simp add: rotate270_sq [OF assms] rotate90_sq [OF m] nth_mat_of A cong: mat_of_cong)
    with 5 ext show ?thesis by (simp add: applyAugmentation_def reverseAugmentation_def)
  next
    case 6
    have f: "is_mat n n (flip_cv t 0)" using assms by (rule is_mat_flip0)
    have "rotate_cv (rotate_cv (flip_cv t 0) \<lparr>width = int n, height = int n\<rparr> 90 0 (int n - 1))
            \<lparr>width = int n, height = int n\<rparr> 270 (int n - 1) 0 = mat_of n n (\<lambda>y x. flip_cv t 0 ! y ! x)"
      by (simp add: rotate90_sq [OF f] rotate270_sq [OF m] nth_mat_of A cong: mat_of_cong)
    also have "\<dots> = flip_cv t 0" using f by (rule is_mat_eq_mat_of [symmetric])
    finally have "flip_cv (rotate_cv (rotate_cv (flip_cv t 0) \<lparr>width = int n, height = int n\<rparr> 90 0 (int n - 1))
            \<lparr>width = int n, height = int n\<rparr> 270 (int n - 1) 0) 0 = t"
      by (simp add: flip_cv_def)
    with 6 show ?thesis by (simp add: applyAugmentation_def reverseAugmentation_def)
  next
    case 7
    have f: "is_mat n n (flip_cv t 1)" using assms by (rule is_mat_flip1)
    have "rotate_cv (rotate_cv (flip_cv t 1) \<lparr>width = int n, height = int n\<rparr> 90 0 (int n - 1))
            \<lparr>width = int n, height = int n\<rparr> 270 (int n - 1) 0 = mat_of n n (\<lambda>y x. flip_cv t 1 ! y ! x)"
      by (simp add: rotate90_sq [OF f] rotate270_sq [OF m] nth_mat_of A cong: mat_of_cong)
    also have "\<dots> = flip_cv t 1" using f by (rule is_mat_eq_mat_of [symmetric])
    finally have "flip_cv (rotate_cv (rotate_cv (flip_cv t 1) \<lparr>width = int n, height = int n\<rparr> 90 0 (int n - 1))
            \<lparr>width = int n, height = int n\<rparr> 270 (int n - 1) 0) 1 = t"
      by (simp add: flip_cv_def rev_map [symmetric] o_def map_idI)
    with 7 show ?thesis by (simp add: applyAugmentation_def reverseAugmentation_def)
  next
    case 8
    then show ?thesis by (simp add: applyAugmentation_def reverseAugmentation_def)
  qed
qed


lemma roundtrip_no_quarter_turn:
  assumes "is_mat r c t" and "k \<noteq> 3" "k \<noteq> 5" "k \<noteq> 6" "k \<noteq> 7"
  shows "reverseAugmentation (applyAugmentation t \<lparr>width = int c, height = int r\<rparr> k)
           \<lparr>width = int c, height = int r\<rparr> k = t"
proof -
  have A: "n - Suc (n - Suc y) = y" if "y < n" for y n :: nat using that by simp
  have "rotate_cv (rotate_cv t \<lparr>width = int c, height = int r\<rparr> 180 (int c - 1) (int r - 1))
          \<lparr>width = int c, height = int r\<rparr> 180 (int c - 1) (int r - 1)
        = mat_of r c (\<lambda>y x. t ! y ! x)"
    by (simp add: rotate180_mat [OF assms(1)] rotate180_mat [OF is_mat_mat_of] nth_mat_of A
          cong: mat_of_cong)
  also have "\<dots> = t" using assms(1) by (rule is_mat_eq_mat_of [symmetric])
  finally have r180: "rotate_cv (rotate_cv t \<lparr>width = int c, height = int r\<rparr> 180 (int c - 1) (int r - 1))
          \<lparr>width = int c, height = int r\<rparr> 180 (int c - 1) (int r - 1) = t" .
  have f1: "flip_cv (flip_cv t 1) 1 = t"
    by (simp add: flip_cv_def rev_map [symmetric] o_def map_idI)
  have f0: "flip_cv (flip_cv t 0) 0 = t"
    by (simp add: flip_cv_def)
  consider "k = 1" | "k = 2" | "k = 4" | "k \<noteq> 1 \<and> k \<noteq> 2 \<and> k \<noteq> 4"
    by blast
  then show ?thesis
  proof cases
    case 1
    with f0 show ?thesis by (simp add: applyAugmentation_def reverseAugmentation_def)
  next
    case 2
    with f1 show ?thesis by (simp add: applyAugmentation_def reverseAugmentation_def)
  next
    case 3
    with r180 show ?thesis by (simp add: applyAugmentation_def reverseAugmentation_def)
  next
    case 4
    with assms(2-) show ?thesis by (simp add: applyAugmentation_def reverseAugmentation_def)
  qed
qed

text \<open>
  C2, as the code has it. A tile with as many rows as columns, taken through
  \<open>applyAugmentation\<close> and then through \<open>reverseAugmentation\<close> with the same index and
  the tile size as destination size, comes back pixel for pixel, for each of the eight
  kinds (and for any other index, which both functions treat as \<open>None\<close>). A tile that is
  not square comes back unchanged for the kinds without a quarter turn (None, the two
  flips, Rotate180). For the two composite kinds the forward direction is the flip
  followed by the rotation by 90 degrees, and the inverse is the rotation by 270 degrees
  followed by the flip with the same code.
\<close>

theorem augmentation_roundtrip:
  assumes "is_mat r c t"
    and "r = c \<or> (k \<noteq> 3 \<and> k \<noteq> 5 \<and> k \<noteq> 6 \<and> k \<noteq> 7)"
  shows "reverseAugmentation (applyAugmentation t \<lparr>width = int c, height = int r\<rparr> k)
           \<lparr>width = int c, height = int r\<rparr> k = t
         \<and> applyAugmentation t sz 6 = rotate_cv (flip_cv t 0) sz 90 0 (height sz - 1)
         \<and> reverseAugmentation u sz 6 = flip_cv (rotate_cv u sz 270 (width sz - 1) 0) 0
         \<and> applyAugmentation t sz 7 = rotate_cv (flip_cv t 1) sz 90 0 (height sz - 1)
         \<and> reverseAugmentation u sz 7 = flip_cv (rotate_cv u sz 270 (width sz - 1) 0) 1"
proof -
  have "reverseAugmentation (applyAugmentation t \<lparr>width = int c, height = int r\<rparr> k)
           \<lparr>width = int c, height = int r\<rparr> k = t"
    using assms roundtrip_square [of r t k] roundtrip_no_quarter_turn [of r c t k] by blast
  moreover have "applyAugmentation t sz 6 = rotate_cv (flip_cv t 0) sz 90 0 (height sz - 1)"
    and "applyAugmentation t sz 7 = rotate_cv (flip_cv t 1) sz 90 0 (height sz - 1)"
    by (simp_all add: applyAugmentation_def)
  moreover have "reverseAugmentation u sz 6 = flip_cv (rotate_cv u sz 270 (width sz - 1) 0) 0"
    and "reverseAugmentation u sz 7 = flip_cv (rotate_cv u sz 270 (width sz - 1) 0) 1"
    by (simp_all add: reverseAugmentation_def)
  ultimately show ?thesis by simp
qed

theorem augmentation_roundtrip_witness:
  "is_mat 2 2 [[1, 2], [3, 4 :: int]]
   \<and> reverseAugmentation
     (applyAugmentation [[1, 2], [3, 4 :: int]] \<lparr>width = 2, height = 2\<rparr> 6)
     \<lparr>width = 2, height = 2\<rparr> 6 = [[1, 2], [3, 4]]"
proof -
  have m: "is_mat 2 2 [[1, 2], [3, 4 :: int]]"
    by (simp add: is_mat_def)
  have "2 = (2 :: nat) \<or> ((6 :: int) \<noteq> 3 \<and> (6 :: int) \<noteq> 5 \<and> (6 :: int) \<noteq> 6 \<and> (6 :: int) \<noteq> 7)"
    by simp
  from augmentation_roundtrip [OF m this, where sz = "\<lparr>width = 2, height = 2\<rparr>" and u = "[]",
      THEN conjunct1]
  show ?thesis
    using m by simp
qed

text \<open>
  C2 as stated, for every tile, fails on a tile that is not square: a tile of one row and
  two columns loses a pixel in the quarter turn of Rotate90.
\<close>

theorem augmentation_roundtrip_counterexample:
  "reverseAugmentation
     (applyAugmentation [[1, 2 :: int]] \<lparr>width = 2, height = 1\<rparr> 3)
     \<lparr>width = 2, height = 1\<rparr> 3 \<noteq> [[1, 2]]"
  by (simp add: applyAugmentation_def reverseAugmentation_def rotate_cv_def mat_of_def
        rot_cos_def rot_sin_def rows_def cols_def at_px_def upt_rec Let_def)

section \<open>Edge padding\<close>

lemma roi_mat:
  assumes "is_mat R C m" and "0 < R"
    and "0 \<le> x" "0 < w" "x + w \<le> int C" "0 \<le> y" "0 < h" "y + h \<le> int R"
  shows "roi m \<lparr>rx = x, ry = y, rwidth = w, rheight = h\<rparr>
           = Inr (mat_of (nat h) (nat w) (\<lambda>j i. m ! (nat y + j) ! (nat x + i)))"
proof -
  have len: "length m = R" and row: "\<And>k. k < R \<Longrightarrow> length (m ! k) = C"
    using assms(1) by (simp_all add: is_mat_def)
  have "map (\<lambda>row. take (nat w) (drop (nat x) row)) (take (nat h) (drop (nat y) m))
          = mat_of (nat h) (nat w) (\<lambda>j i. m ! (nat y + j) ! (nat x + i))"
  proof (rule mat_eqI [of "nat h" "nat w"])
    have hh: "min (length m - nat y) (nat h) = nat h"
      using assms len by linarith
    have ww: "min (C - nat x) (nat w) = nat w"
      using assms by linarith
    show "is_mat (nat h) (nat w)
            (map (\<lambda>row. take (nat w) (drop (nat x) row)) (take (nat h) (drop (nat y) m)))"
      unfolding is_mat_def
    proof (intro conjI ballI)
      show "length (map (\<lambda>row. take (nat w) (drop (nat x) row)) (take (nat h) (drop (nat y) m)))
              = nat h"
        using hh by simp
      fix row
      assume "row \<in> set (map (\<lambda>row. take (nat w) (drop (nat x) row))
                             (take (nat h) (drop (nat y) m)))"
      then obtain r0 where "r0 \<in> set m" and "row = take (nat w) (drop (nat x) r0)"
        by (auto dest: in_set_takeD in_set_dropD)
      then show "length row = nat w"
        using assms(1) ww by (simp add: is_mat_def)
    qed
    show "is_mat (nat h) (nat w) (mat_of (nat h) (nat w) (\<lambda>j i. m ! (nat y + j) ! (nat x + i)))"
      by (rule is_mat_mat_of)
    fix j i assume "j < nat h" "i < nat w"
    then show "map (\<lambda>row. take (nat w) (drop (nat x) row)) (take (nat h) (drop (nat y) m)) ! j ! i
                 = mat_of (nat h) (nat w) (\<lambda>j i. m ! (nat y + j) ! (nat x + i)) ! j ! i"
      using assms len row by (simp add: nth_mat_of)
  qed
  then show ?thesis
    using assms by (simp add: roi_def is_mat_rows [OF assms(1)] is_mat_cols [OF assms(1)])
qed

lemma copyMakeBorder_mat_of:
  assumes "0 < h" "0 < w" "0 \<le> t" "0 \<le> b" "0 \<le> l" "0 \<le> r"
  shows "copyMakeBorder (mat_of h w f) t b l r
           = Inr (mat_of (nat (int h + t + b)) (nat (int w + l + r))
                   (\<lambda>y x. f (nat (clamp 0 (int h - 1) (int y - t)))
                            (nat (clamp 0 (int w - 1) (int x - l)))))"
proof -
  have "at_px (mat_of h w f) (clamp 0 (int h - 1) (int y - t)) (clamp 0 (int w - 1) (int x - l))
          = f (nat (clamp 0 (int h - 1) (int y - t))) (nat (clamp 0 (int w - 1) (int x - l)))"
    for y x
    using assms by (simp add: at_px_def nth_mat_of clamp_def)
  then show ?thesis
    using assms by (simp add: copyMakeBorder_def rows_mat_of cols_mat_of)
qed

lemma padRoi_clip:
  "padRoi input r =
     (if rx r < 0 \<or> ry r < 0 \<or> rx r + rwidth r > cols input \<or> ry r + rheight r > rows input
      then then_do (roi input \<lparr>rx = max 0 (rx r), ry = max 0 (ry r),
                       rwidth = min (rx r + rwidth r) (cols input) - max 0 (rx r),
                       rheight = min (ry r + rheight r) (rows input) - max 0 (ry r)\<rparr>)
             (\<lambda>clipped. copyMakeBorder clipped (max 0 (- ry r))
                  (max 0 (ry r + rheight r - rows input)) (max 0 (- rx r))
                  (max 0 (rx r + rwidth r - cols input)))
      else roi input r)"
  by (cases r) (simp add: padRoi_def Let_def max_def min_def add.commute)

lemma clip_index:
  assumes "0 < R" "0 < h" "y < R" "0 < y + h" "0 \<le> j" "j < h"
  shows "nat (max 0 y) + nat (clamp 0 (min (y + h) R - max 0 y - 1) (j - max 0 (- y)))
           = nat (clamp 0 (R - 1) (y + j))"
  using assms by (auto simp: clamp_def max_def min_def)

lemma clip_extent:
  assumes "0 < (R :: int)" "0 < h" "y < R" "0 < y + h"
  shows "min (y + h) R - max 0 y + max 0 (- y) + max 0 (y + h - R) = h"
    and "0 < min (y + h) R - max 0 y"
  using assms by (auto simp: max_def min_def)

lemma padRoi_replicate:
  assumes m: "is_mat R C src" and R: "0 < R" and C: "0 < C"
    and w: "0 < rwidth r" and h: "0 < rheight r"
    and x1: "rx r < int C" and y1: "ry r < int R"
    and x2: "0 < rx r + rwidth r" and y2: "0 < ry r + rheight r"
  shows "padRoi src r
           = Inr (mat_of (nat (rheight r)) (nat (rwidth r))
                   (\<lambda>j i. at_px src (clamp 0 (int R - 1) (ry r + int j))
                                    (clamp 0 (int C - 1) (rx r + int i))))"
proof -
  have R': "0 < int R" and C': "0 < int C" using R C by simp_all
  have rows: "rows src = int R" and cols: "cols src = int C"
    using m R by (simp_all add: is_mat_rows is_mat_cols)
  show ?thesis
  proof (cases "rx r < 0 \<or> ry r < 0 \<or> rx r + rwidth r > int C \<or> ry r + rheight r > int R")
    case False
    then have inside: "0 \<le> rx r" "0 \<le> ry r" "rx r + rwidth r \<le> int C" "ry r + rheight r \<le> int R"
      by linarith+
    have "padRoi src r = roi src \<lparr>rx = rx r, ry = ry r, rwidth = rwidth r, rheight = rheight r\<rparr>"
      using False by (cases r) (simp add: padRoi_clip rows cols)
    also have "\<dots> = Inr (mat_of (nat (rheight r)) (nat (rwidth r))
                        (\<lambda>j i. src ! (nat (ry r) + j) ! (nat (rx r) + i)))"
      using inside w h by (intro roi_mat [OF m R]) simp_all
    also have "mat_of (nat (rheight r)) (nat (rwidth r))
                 (\<lambda>j i. src ! (nat (ry r) + j) ! (nat (rx r) + i))
               = mat_of (nat (rheight r)) (nat (rwidth r))
                   (\<lambda>j i. at_px src (clamp 0 (int R - 1) (ry r + int j))
                                    (clamp 0 (int C - 1) (rx r + int i)))"
    proof (rule mat_of_cong)
      fix j i assume "j < nat (rheight r)" "i < nat (rwidth r)"
      then have "clamp 0 (int R - 1) (ry r + int j) = ry r + int j"
        and "clamp 0 (int C - 1) (rx r + int i) = rx r + int i"
        using inside by (simp_all add: clamp_def)
      then show "src ! (nat (ry r) + j) ! (nat (rx r) + i)
                   = at_px src (clamp 0 (int R - 1) (ry r + int j))
                       (clamp 0 (int C - 1) (rx r + int i))"
        using inside by (simp add: at_px_def nat_add_distrib)
    qed
    finally show ?thesis .
  next
    case True
    let ?x0 = "max 0 (rx r)" and ?y0 = "max 0 (ry r)"
    let ?w' = "min (rx r + rwidth r) (int C) - max 0 (rx r)"
    let ?h' = "min (ry r + rheight r) (int R) - max 0 (ry r)"
    let ?g = "\<lambda>j i. src ! (nat ?y0 + j) ! (nat ?x0 + i)"
    have pos: "0 < ?w'" "0 < ?h'"
      using clip_extent(2) [OF C' w x1 x2] clip_extent(2) [OF R' h y1 y2] by simp_all
    have clipped: "roi src \<lparr>rx = ?x0, ry = ?y0, rwidth = ?w', rheight = ?h'\<rparr>
                     = Inr (mat_of (nat ?h') (nat ?w') ?g)"
      using pos by (intro roi_mat [OF m R]) (simp_all add: max_def min_def)
    have border: "copyMakeBorder (mat_of (nat ?h') (nat ?w') ?g) (max 0 (- ry r))
                    (max 0 (ry r + rheight r - int R)) (max 0 (- rx r))
                    (max 0 (rx r + rwidth r - int C))
                  = Inr (mat_of (nat (rheight r)) (nat (rwidth r))
                      (\<lambda>y x. ?g (nat (clamp 0 (?h' - 1) (int y - max 0 (- ry r))))
                                 (nat (clamp 0 (?w' - 1) (int x - max 0 (- rx r))))))"
      using pos clip_extent(1) [OF C' w x1 x2] clip_extent(1) [OF R' h y1 y2]
      by (subst copyMakeBorder_mat_of) simp_all
    have "padRoi src r
            = copyMakeBorder (mat_of (nat ?h') (nat ?w') ?g) (max 0 (- ry r))
                (max 0 (ry r + rheight r - int R)) (max 0 (- rx r))
                (max 0 (rx r + rwidth r - int C))"
      using True clipped by (simp add: padRoi_clip rows cols then_do_def)
    also note border
    also have "mat_of (nat (rheight r)) (nat (rwidth r))
                 (\<lambda>y x. ?g (nat (clamp 0 (?h' - 1) (int y - max 0 (- ry r))))
                            (nat (clamp 0 (?w' - 1) (int x - max 0 (- rx r)))))
               = mat_of (nat (rheight r)) (nat (rwidth r))
                   (\<lambda>j i. at_px src (clamp 0 (int R - 1) (ry r + int j))
                                    (clamp 0 (int C - 1) (rx r + int i)))"
    proof (rule mat_of_cong)
      fix j i assume "j < nat (rheight r)" "i < nat (rwidth r)"
      then have j: "0 \<le> int j" "int j < rheight r" and i: "0 \<le> int i" "int i < rwidth r"
        by simp_all
      show "?g (nat (clamp 0 (?h' - 1) (int j - max 0 (- ry r))))
              (nat (clamp 0 (?w' - 1) (int i - max 0 (- rx r))))
            = at_px src (clamp 0 (int R - 1) (ry r + int j))
                (clamp 0 (int C - 1) (rx r + int i))"
        unfolding at_px_def
        using clip_index [OF R' h y1 y2 j] clip_index [OF C' w x1 x2 i] by simp
    qed
    finally show ?thesis .
  qed
qed

text \<open>
  C7, as the code has it. For a source image with at least one row and one column and a
  requested rectangle of positive width and height that overlaps the image (on one side
  or on several sides at once it may reach beyond it), with coordinates on which the
  32-bit sums \<open>x + width\<close> and \<open>y + height\<close> and the negations of \<open>x\<close> and \<open>y\<close> do not
  overflow, \<open>padRoi\<close> returns a tile with the requested width and height; every pixel of
  the tile is the source pixel nearest to the requested position, so the pixels inside
  the image are copied and the missing borders repeat the nearest edge pixel. A
  rectangle inside the image gives exactly that region.
\<close>

theorem padRoi_extract:
  assumes "is_mat R C src" and "0 < R" and "0 < C"
    and "padRoi_in_range src r"
    and "0 < rwidth r" and "0 < rheight r"
    and "rx r < int C" and "ry r < int R"
    and "0 < rx r + rwidth r" and "0 < ry r + rheight r"
  shows "padRoi src r = Inr (extract_spec src r)
         \<and> rows (extract_spec src r) = rheight r
         \<and> cols (extract_spec src r) = rwidth r
         \<and> (0 \<le> rx r \<and> 0 \<le> ry r \<and> rx r + rwidth r \<le> int C \<and> ry r + rheight r \<le> int R
              \<longrightarrow> roi src r = Inr (extract_spec src r))"
proof -
  have rc: "rows src = int R" "cols src = int C"
    using assms(1-3) by (simp_all add: is_mat_rows is_mat_cols)
  have 1: "padRoi src r = Inr (extract_spec src r)"
    using padRoi_replicate [OF assms(1-3) assms(5-)] by (simp add: extract_spec_def rc)
  have 2: "rows (extract_spec src r) = rheight r" "cols (extract_spec src r) = rwidth r"
    using assms(5,6) by (simp_all add: extract_spec_def rows_mat_of cols_mat_of)
  have 3: "roi src r = Inr (extract_spec src r)"
    if "0 \<le> rx r \<and> 0 \<le> ry r \<and> rx r + rwidth r \<le> int C \<and> ry r + rheight r \<le> int R"
  proof -
    have "padRoi src r = roi src r"
      using that by (simp add: padRoi_clip rc)
    with 1 show ?thesis by simp
  qed
  from 1 2 3 show ?thesis by blast
qed

theorem padRoi_extract_witness:
  "padRoi_in_range [[1, 2, 3], [4, 5, 6 :: int]]
     \<lparr>rx = - 1, ry = - 1, rwidth = 5, rheight = 4\<rparr>
   \<and> padRoi [[1, 2, 3], [4, 5, 6 :: int]] \<lparr>rx = - 1, ry = - 1, rwidth = 5, rheight = 4\<rparr>
     = Inr [[1, 1, 2, 3, 3], [1, 1, 2, 3, 3], [4, 4, 5, 6, 6], [4, 4, 5, 6, 6]]"
proof -
  have m: "is_mat 2 3 [[1, 2, 3], [4, 5, 6 :: int]]"
    by (simp add: is_mat_def)
  have rg: "padRoi_in_range [[1, 2, 3], [4, 5, 6 :: int]]
              \<lparr>rx = - 1, ry = - 1, rwidth = 5, rheight = 4\<rparr>"
    by (simp add: padRoi_in_range_def int32_def rows_def cols_def)
  have "padRoi [[1, 2, 3], [4, 5, 6 :: int]] \<lparr>rx = - 1, ry = - 1, rwidth = 5, rheight = 4\<rparr>
          = Inr (extract_spec [[1, 2, 3], [4, 5, 6]]
                   \<lparr>rx = - 1, ry = - 1, rwidth = 5, rheight = 4\<rparr>)"
    using padRoi_extract [OF m _ _ rg] by simp
  also have "extract_spec [[1, 2, 3], [4, 5, 6 :: int]]
               \<lparr>rx = - 1, ry = - 1, rwidth = 5, rheight = 4\<rparr>
             = [[1, 1, 2, 3, 3], [1, 1, 2, 3, 3], [4, 4, 5, 6, 6], [4, 4, 5, 6, 6]]"
    by (simp add: extract_spec_def mat_of_def at_px_def clamp_def rows_def cols_def upt_rec)
  finally show ?thesis using rg by simp
qed

text \<open>
  C7 as stated, for every requested rectangle, fails on a rectangle that lies wholly
  beside the image: the clipped region would have a negative width, the region
  operator of \<open>GpuMat\<close> rejects it, and no tile is returned.
\<close>

theorem padRoi_extract_counterexample:
  "padRoi [[1, 2, 3], [4, 5, 6 :: int]] \<lparr>rx = - 5, ry = 0, rwidth = 2, rheight = 2\<rparr>
     = Inl CvAssertion"
  by (simp add: padRoi_def roi_def then_do_def rows_def cols_def)

section \<open>Blend weights\<close>

lemma set_row_mat_of:
  assumes "0 \<le> y0" "y0 < int H"
  shows "set_row (mat_of H W f) y0 v = Inr (mat_of H W (\<lambda>y x. if int y = y0 then v else f y x))"
proof -
  have "(mat_of H W f)[nat y0 := map (\<lambda>_. v) (mat_of H W f ! nat y0)]
          = mat_of H W (\<lambda>y x. if int y = y0 then v else f y x)"
  proof (rule mat_eqI [of H W])
    show "is_mat H W ((mat_of H W f)[nat y0 := map (\<lambda>_. v) (mat_of H W f ! nat y0)])"
      using assms by (auto simp: is_mat_def mat_of_def set_conv_nth nth_list_update)
    show "is_mat H W (mat_of H W (\<lambda>y x. if int y = y0 then v else f y x))"
      by (rule is_mat_mat_of)
    fix y x assume "y < H" "x < W"
    then show "(mat_of H W f)[nat y0 := map (\<lambda>_. v) (mat_of H W f ! nat y0)] ! y ! x
                 = mat_of H W (\<lambda>y x. if int y = y0 then v else f y x) ! y ! x"
      using assms by (auto simp: nth_mat_of nth_list_update length_mat_of mat_of_def)
  qed
  then show ?thesis
    using assms by (simp add: set_row_def rows_mat_of)
qed

lemma set_col_mat_of:
  assumes "0 \<le> x0" "x0 < int W" "0 < H"
  shows "set_col (mat_of H W f) x0 v = Inr (mat_of H W (\<lambda>y x. if int x = x0 then v else f y x))"
proof -
  have "map (\<lambda>row. row[nat x0 := v]) (mat_of H W f)
          = mat_of H W (\<lambda>y x. if int x = x0 then v else f y x)"
  proof (rule mat_eqI [of H W])
    show "is_mat H W (map (\<lambda>row. row[nat x0 := v]) (mat_of H W f))"
      by (auto simp: is_mat_def mat_of_def)
    show "is_mat H W (mat_of H W (\<lambda>y x. if int x = x0 then v else f y x))"
      by (rule is_mat_mat_of)
    fix y x assume "y < H" "x < W"
    then show "map (\<lambda>row. row[nat x0 := v]) (mat_of H W f) ! y ! x
                 = mat_of H W (\<lambda>y x. if int x = x0 then v else f y x) ! y ! x"
      using assms by (auto simp: nth_mat_of nth_list_update length_mat_of mat_of_def)
  qed
  then show ?thesis
    using assms by (simp add: set_col_def cols_mat_of)
qed

lemma set_row_fails: "int H \<le> y0 \<Longrightarrow> set_row (mat_of H W f) y0 v = Inl CvAssertion"
  by (simp add: set_row_def rows_mat_of)

lemma set_col_fails:
  "set_col (mat_of H W f) x0 v = Inl CvAssertion" if "int W \<le> x0"
proof (cases "H = 0")
  case True
  then have "cols (mat_of H W f) = 0" by (simp add: cols_def mat_of_def)
  then show ?thesis using that by (simp add: set_col_def)
next
  case False
  then show ?thesis using that by (simp add: set_col_def cols_mat_of)
qed

lemma ramp_rows_upt:
  assumes "1 \<le> a"
  shows "ramp_rows (mat_of H W f) h [a..<b] =
           (if b \<le> a \<or> b \<le> Suc H
            then Inr (mat_of H W (\<lambda>y x. if a \<le> Suc y \<and> Suc y < b
                                          then Px3 (rat_of_nat (Suc y) / rat_of_int h)
                                                 (rat_of_nat (Suc y) / rat_of_int h)
                                                 (rat_of_nat (Suc y) / rat_of_int h)
                                          else f y x))
            else Inl CvAssertion)"
  using assms
proof (induction "b - a" arbitrary: a f)
  case 0
  then have "[a..<b] = []" by simp
  moreover have "mat_of H W (\<lambda>y x. if a \<le> Suc y \<and> Suc y < b
                                          then Px3 (rat_of_nat (Suc y) / rat_of_int h)
                                                 (rat_of_nat (Suc y) / rat_of_int h)
                                                 (rat_of_nat (Suc y) / rat_of_int h)
                                          else f y x) = mat_of H W f"
    using 0 by (intro mat_of_cong) auto
  ultimately show ?case using 0 by simp
next
  case (Suc n)
  then have ab: "a < b" and n: "n = b - Suc a" by simp_all
  then have upt: "[a..<b] = a # [Suc a..<b]" by (simp add: upt_conv_Cons)
  let ?v = "Px3 (rat_of_nat a / rat_of_int h) (rat_of_nat a / rat_of_int h)
              (rat_of_nat a / rat_of_int h)"
  show ?case
  proof (cases "a \<le> H")
    case True
    have step: "set_row (mat_of H W f) (int a - 1) ?v
                  = Inr (mat_of H W (\<lambda>y x. if int y = int a - 1 then ?v else f y x))"
      using True Suc.prems by (intro set_row_mat_of) simp_all
    have "ramp_rows (mat_of H W f) h [a..<b]
            = ramp_rows (mat_of H W (\<lambda>y x. if int y = int a - 1 then ?v else f y x)) h [Suc a..<b]"
      by (simp add: upt step then_do_def Let_def)
    also have "\<dots> = (if b \<le> Suc a \<or> b \<le> Suc H
            then Inr (mat_of H W (\<lambda>y x. if Suc a \<le> Suc y \<and> Suc y < b
                                          then Px3 (rat_of_nat (Suc y) / rat_of_int h)
                                                 (rat_of_nat (Suc y) / rat_of_int h)
                                                 (rat_of_nat (Suc y) / rat_of_int h)
                                          else if int y = int a - 1 then ?v else f y x))
            else Inl CvAssertion)"
      using Suc.hyps(1) [OF n] by simp
    also have "\<dots> = (if b \<le> a \<or> b \<le> Suc H
            then Inr (mat_of H W (\<lambda>y x. if a \<le> Suc y \<and> Suc y < b
                                          then Px3 (rat_of_nat (Suc y) / rat_of_int h)
                                                 (rat_of_nat (Suc y) / rat_of_int h)
                                                 (rat_of_nat (Suc y) / rat_of_int h)
                                          else f y x))
            else Inl CvAssertion)"
    proof -
      have "mat_of H W (\<lambda>y x. if Suc a \<le> Suc y \<and> Suc y < b
                                          then Px3 (rat_of_nat (Suc y) / rat_of_int h)
                                                 (rat_of_nat (Suc y) / rat_of_int h)
                                                 (rat_of_nat (Suc y) / rat_of_int h)
                                          else if int y = int a - 1 then ?v else f y x)
            = mat_of H W (\<lambda>y x. if a \<le> Suc y \<and> Suc y < b
                                          then Px3 (rat_of_nat (Suc y) / rat_of_int h)
                                                 (rat_of_nat (Suc y) / rat_of_int h)
                                                 (rat_of_nat (Suc y) / rat_of_int h)
                                          else f y x)"
      proof (rule mat_of_cong)
        fix y x
        have "int y = int a - 1 \<longleftrightarrow> Suc y = a"
          using Suc.prems by linarith
        then show "(if Suc a \<le> Suc y \<and> Suc y < b
                                          then Px3 (rat_of_nat (Suc y) / rat_of_int h)
                                                 (rat_of_nat (Suc y) / rat_of_int h)
                                                 (rat_of_nat (Suc y) / rat_of_int h)
                                          else if int y = int a - 1 then ?v else f y x)
            = (if a \<le> Suc y \<and> Suc y < b
                                          then Px3 (rat_of_nat (Suc y) / rat_of_int h)
                                                 (rat_of_nat (Suc y) / rat_of_int h)
                                                 (rat_of_nat (Suc y) / rat_of_int h)
                                          else f y x)"
          using ab by auto
      qed
      then show ?thesis using ab True by auto
    qed
    finally show ?thesis .
  next
    case False
    then have "set_row (mat_of H W f) (int a - 1) ?v = Inl CvAssertion"
      by (intro set_row_fails) simp
    then show ?thesis
      using False ab by (simp add: upt then_do_def Let_def)
  qed
qed

lemma ramp_cols_upt:
  assumes "1 \<le> a" and H: "0 < H"
  shows "ramp_cols (mat_of H W f) h [a..<b] =
           (if b \<le> a \<or> b \<le> Suc W
            then Inr (mat_of H W (\<lambda>y x. if a \<le> Suc x \<and> Suc x < b
                                          then Px3 (rat_of_nat (Suc x) / rat_of_int h)
                                                 (rat_of_nat (Suc x) / rat_of_int h)
                                                 (rat_of_nat (Suc x) / rat_of_int h)
                                          else f y x))
            else Inl CvAssertion)"
  using assms
proof (induction "b - a" arbitrary: a f)
  case 0
  then have "[a..<b] = []" by simp
  moreover have "mat_of H W (\<lambda>y x. if a \<le> Suc x \<and> Suc x < b
                                          then Px3 (rat_of_nat (Suc x) / rat_of_int h)
                                                 (rat_of_nat (Suc x) / rat_of_int h)
                                                 (rat_of_nat (Suc x) / rat_of_int h)
                                          else f y x) = mat_of H W f"
    using 0 by (intro mat_of_cong) auto
  ultimately show ?case using 0 by simp
next
  case (Suc n)
  then have ab: "a < b" and n: "n = b - Suc a" by simp_all
  then have upt: "[a..<b] = a # [Suc a..<b]" by (simp add: upt_conv_Cons)
  let ?v = "Px3 (rat_of_nat a / rat_of_int h) (rat_of_nat a / rat_of_int h)
              (rat_of_nat a / rat_of_int h)"
  show ?case
  proof (cases "a \<le> W")
    case True
    have step: "set_col (mat_of H W f) (int a - 1) ?v
                  = Inr (mat_of H W (\<lambda>y x. if int x = int a - 1 then ?v else f y x))"
      using True Suc.prems H by (intro set_col_mat_of) simp_all
    have "ramp_cols (mat_of H W f) h [a..<b]
            = ramp_cols (mat_of H W (\<lambda>y x. if int x = int a - 1 then ?v else f y x)) h [Suc a..<b]"
      by (simp add: upt step then_do_def Let_def)
    also have "\<dots> = (if b \<le> Suc a \<or> b \<le> Suc W
            then Inr (mat_of H W (\<lambda>y x. if Suc a \<le> Suc x \<and> Suc x < b
                                          then Px3 (rat_of_nat (Suc x) / rat_of_int h)
                                                 (rat_of_nat (Suc x) / rat_of_int h)
                                                 (rat_of_nat (Suc x) / rat_of_int h)
                                          else if int x = int a - 1 then ?v else f y x))
            else Inl CvAssertion)"
      using Suc.hyps(1) [OF n _ H] by simp
    also have "\<dots> = (if b \<le> a \<or> b \<le> Suc W
            then Inr (mat_of H W (\<lambda>y x. if a \<le> Suc x \<and> Suc x < b
                                          then Px3 (rat_of_nat (Suc x) / rat_of_int h)
                                                 (rat_of_nat (Suc x) / rat_of_int h)
                                                 (rat_of_nat (Suc x) / rat_of_int h)
                                          else f y x))
            else Inl CvAssertion)"
    proof -
      have "mat_of H W (\<lambda>y x. if Suc a \<le> Suc x \<and> Suc x < b
                                          then Px3 (rat_of_nat (Suc x) / rat_of_int h)
                                                 (rat_of_nat (Suc x) / rat_of_int h)
                                                 (rat_of_nat (Suc x) / rat_of_int h)
                                          else if int x = int a - 1 then ?v else f y x)
            = mat_of H W (\<lambda>y x. if a \<le> Suc x \<and> Suc x < b
                                          then Px3 (rat_of_nat (Suc x) / rat_of_int h)
                                                 (rat_of_nat (Suc x) / rat_of_int h)
                                                 (rat_of_nat (Suc x) / rat_of_int h)
                                          else f y x)"
      proof (rule mat_of_cong)
        fix y x
        have "int x = int a - 1 \<longleftrightarrow> Suc x = a"
          using Suc.prems by linarith
        then show "(if Suc a \<le> Suc x \<and> Suc x < b
                                          then Px3 (rat_of_nat (Suc x) / rat_of_int h)
                                                 (rat_of_nat (Suc x) / rat_of_int h)
                                                 (rat_of_nat (Suc x) / rat_of_int h)
                                          else if int x = int a - 1 then ?v else f y x)
            = (if a \<le> Suc x \<and> Suc x < b
                                          then Px3 (rat_of_nat (Suc x) / rat_of_int h)
                                                 (rat_of_nat (Suc x) / rat_of_int h)
                                                 (rat_of_nat (Suc x) / rat_of_int h)
                                          else f y x)"
          using ab by auto
      qed
      then show ?thesis using ab True by auto
    qed
    finally show ?thesis .
  next
    case False
    then have "set_col (mat_of H W f) (int a - 1) ?v = Inl CvAssertion"
      by (intro set_col_fails) simp
    then show ?thesis
      using False ab by (simp add: upt then_do_def Let_def)
  qed
qed



lemma createTileWeights_masks:
  assumes "0 < H"
  shows "createTileWeights \<lparr>px = ox, py = oy\<rparr> \<lparr>width = int W, height = int H\<rparr> =
           (if oy \<le> int H \<and> ox \<le> int W
            then Inr [mat_of H W (\<lambda>y x. ramp_weight oy y),
                      mat_of H W (\<lambda>y x. ramp_weight ox (W - 1 - x)),
                      mat_of H W (\<lambda>y x. ramp_weight oy (H - 1 - y)),
                      mat_of H W (\<lambda>y x. ramp_weight ox x)]
            else Inl CvAssertion)"
proof -
  let ?ones = "mat_of H W (\<lambda>y x. Px3 1 1 (1 :: rat))"
  have rows: "ramp_rows ?ones (oy + 1) [1..<nat (oy + 1)] =
                (if oy \<le> int H then Inr (mat_of H W (\<lambda>y x. ramp_weight oy y))
                 else Inl CvAssertion)"
  proof -
    have "mat_of H W (\<lambda>y x. if 1 \<le> Suc y \<and> Suc y < nat (oy + 1)
                                then Px3 (rat_of_nat (Suc y) / rat_of_int (oy + 1))
                                       (rat_of_nat (Suc y) / rat_of_int (oy + 1))
                                       (rat_of_nat (Suc y) / rat_of_int (oy + 1))
                                else Px3 1 1 1)
          = mat_of H W (\<lambda>y x. ramp_weight oy y)"
      by (rule mat_of_cong) (auto simp: ramp_weight_def gray_def)
    moreover have "nat (oy + 1) \<le> 1 \<or> nat (oy + 1) \<le> Suc H \<longleftrightarrow> oy \<le> int H"
      by linarith
    ultimately show ?thesis
      by (simp add: ramp_rows_upt)
  qed
  have cols: "ramp_cols ?ones (ox + 1) [1..<nat (ox + 1)] =
                (if ox \<le> int W then Inr (mat_of H W (\<lambda>y x. ramp_weight ox x))
                 else Inl CvAssertion)"
  proof -
    have "mat_of H W (\<lambda>y x. if 1 \<le> Suc x \<and> Suc x < nat (ox + 1)
                                then Px3 (rat_of_nat (Suc x) / rat_of_int (ox + 1))
                                       (rat_of_nat (Suc x) / rat_of_int (ox + 1))
                                       (rat_of_nat (Suc x) / rat_of_int (ox + 1))
                                else Px3 1 1 1)
          = mat_of H W (\<lambda>y x. ramp_weight ox x)"
      by (rule mat_of_cong) (auto simp: ramp_weight_def gray_def)
    moreover have "nat (ox + 1) \<le> 1 \<or> nat (ox + 1) \<le> Suc W \<longleftrightarrow> ox \<le> int W"
      by linarith
    ultimately show ?thesis
      using assms(1) by (simp add: ramp_cols_upt)
  qed
  have right: "flip_cv (mat_of H W (\<lambda>y x. ramp_weight ox x)) 1
                 = mat_of H W (\<lambda>y x. ramp_weight ox (W - 1 - x))"
    by (simp add: flip1_mat [OF is_mat_mat_of] nth_mat_of cong: mat_of_cong)
  have bottom: "flip_cv (mat_of H W (\<lambda>y x. ramp_weight oy y)) 0
                 = mat_of H W (\<lambda>y x. ramp_weight oy (H - 1 - y))"
    by (simp add: flip0_mat [OF is_mat_mat_of] nth_mat_of cong: mat_of_cong)
  show ?thesis
    using assms rows cols right bottom
    by (simp add: createTileWeights_def Let_def then_do_def)
qed











lemma adjacent_origins:
  "rx (outputTileRectAt s outputRect (i + 1) j) - rx (outputTileRectAt s outputRect i j)
     = width (outputTileSize s) - px (scaledOutputOverlap s)"
  "ry (outputTileRectAt s outputRect i (j + 1)) - ry (outputTileRectAt s outputRect i j)
     = height (outputTileSize s) - py (scaledOutputOverlap s)"
  by (simp_all add: outputTileRectAt_def Let_def algebra_simps)


lemma lround_of_int: "lround (rat_of_int n) = n"
proof -
  have "\<lfloor>rat_of_int n + 1 / 2\<rfloor> = n" by linarith
  moreover have "\<lfloor>- rat_of_int n + 1 / 2\<rfloor> = - n" by linarith
  ultimately show ?thesis by (simp add: lround_def)
qed

lemma lround_numeral: "lround (numeral k) = numeral k"
  using lround_of_int [of "numeral k"] by simp



section \<open>Tile geometry\<close>










lemma lround_ceil_div: "0 < b \<Longrightarrow> lround_ceil a b = - ((- a) div b)"
  by (simp add: lround_ceil_def ceiling_divide_eq_div)

lemma load_scenario_eq:
  "load scenario_config [4, 3, 256, 256] [4, 3, 512, 512]
     = Inr \<lparr>renderConfig = scenario_config,
            inputTileSize = \<lparr>width = 256, height = 256\<rparr>,
            outputTileSize = \<lparr>width = 512, height = 512\<rparr>,
            scaledInputTileSize = \<lparr>width = 256, height = 256\<rparr>,
            scaledOutputTileSize = \<lparr>width = 512, height = 512\<rparr>,
            inputOverlap = \<lparr>px = 16, py = 16\<rparr>,
            scaledOutputOverlap = \<lparr>px = 32, py = 32\<rparr>,
            weights = [mat_of 512 512 (\<lambda>y x. ramp_weight 32 y),
                       mat_of 512 512 (\<lambda>y x. ramp_weight 32 (511 - x)),
                       mat_of 512 512 (\<lambda>y x. ramp_weight 32 (511 - y)),
                       mat_of 512 512 (\<lambda>y x. ramp_weight 32 x)]\<rparr>"
proof -
  have "createTileWeights \<lparr>px = 32, py = 32\<rparr> \<lparr>width = 512, height = 512\<rparr>
          = Inr [mat_of 512 512 (\<lambda>y x. ramp_weight 32 y),
                 mat_of 512 512 (\<lambda>y x. ramp_weight 32 (511 - x)),
                 mat_of 512 512 (\<lambda>y x. ramp_weight 32 (511 - y)),
                 mat_of 512 512 (\<lambda>y x. ramp_weight 32 x)]"
    using createTileWeights_masks [of 512 32 32 512] by simp
  then show ?thesis
    by (simp add: load_def Let_def lround_numeral then_do_def)
       (simp add: scenario_config_def lround_numeral)
qed

lemma scenario_tiles:
  "calculateTiles (projr (load scenario_config [4, 3, 256, 256] [4, 3, 512, 512]))
     \<lparr>rx = 0, ry = 0, rwidth = 640, rheight = 640\<rparr>
     \<lparr>rx = 0, ry = 0, rwidth = 1280, rheight = 1280\<rparr>
   = (9,
      [\<lparr>rx = 0, ry = 0, rwidth = 256, rheight = 256\<rparr>,
       \<lparr>rx = 0, ry = 240, rwidth = 256, rheight = 256\<rparr>,
       \<lparr>rx = 0, ry = 480, rwidth = 256, rheight = 256\<rparr>,
       \<lparr>rx = 240, ry = 0, rwidth = 256, rheight = 256\<rparr>,
       \<lparr>rx = 240, ry = 240, rwidth = 256, rheight = 256\<rparr>,
       \<lparr>rx = 240, ry = 480, rwidth = 256, rheight = 256\<rparr>,
       \<lparr>rx = 480, ry = 0, rwidth = 256, rheight = 256\<rparr>,
       \<lparr>rx = 480, ry = 240, rwidth = 256, rheight = 256\<rparr>,
       \<lparr>rx = 480, ry = 480, rwidth = 256, rheight = 256\<rparr>],
      [\<lparr>rx = 0, ry = 0, rwidth = 512, rheight = 512\<rparr>,
       \<lparr>rx = 0, ry = 480, rwidth = 512, rheight = 512\<rparr>,
       \<lparr>rx = 0, ry = 960, rwidth = 512, rheight = 320\<rparr>,
       \<lparr>rx = 480, ry = 0, rwidth = 512, rheight = 512\<rparr>,
       \<lparr>rx = 480, ry = 480, rwidth = 512, rheight = 512\<rparr>,
       \<lparr>rx = 480, ry = 960, rwidth = 512, rheight = 320\<rparr>,
       \<lparr>rx = 960, ry = 0, rwidth = 320, rheight = 512\<rparr>,
       \<lparr>rx = 960, ry = 480, rwidth = 320, rheight = 512\<rparr>,
       \<lparr>rx = 960, ry = 960, rwidth = 320, rheight = 320\<rparr>])"
  by (simp add: load_scenario_eq calculateTiles_def Let_def lround_ceil_div tileGrid_def
        inputTileRectAt_def outputTileRectAt_def tdiv_def upt_rec)


lemma scenario_session_eq:
  "scenario_session
     = \<lparr>renderConfig = scenario_config,
        inputTileSize = \<lparr>width = 256, height = 256\<rparr>,
        outputTileSize = \<lparr>width = 512, height = 512\<rparr>,
        scaledInputTileSize = \<lparr>width = 256, height = 256\<rparr>,
        scaledOutputTileSize = \<lparr>width = 512, height = 512\<rparr>,
        inputOverlap = \<lparr>px = 16, py = 16\<rparr>,
        scaledOutputOverlap = \<lparr>px = 32, py = 32\<rparr>,
        weights = [mat_of 512 512 (\<lambda>y x. ramp_weight 32 y),
                   mat_of 512 512 (\<lambda>y x. ramp_weight 32 (511 - x)),
                   mat_of 512 512 (\<lambda>y x. ramp_weight 32 (511 - y)),
                   mat_of 512 512 (\<lambda>y x. ramp_weight 32 x)]\<rparr>"
  by (simp add: scenario_session_def load_scenario_eq)





section \<open>The concrete scenario\<close>

text \<open>
  C5, as the code has it. For the scenario of the specification (input of 640 by 640
  pixels, scale factor 2, tiles of 256 by 256 going in and 512 by 512 coming out, overlap
  fraction 1/16, batch size 4, no augmentation) \<open>load\<close> succeeds; the canvas \<open>render\<close>
  allocates has 1280 rows and 1280 columns; \<open>calculateTiles\<close> plans 9 tiles, a grid of 3
  by 3, since two tiles with the input stride of 240 pixels reach only 496 pixels; the
  nine output rectangles cover the canvas exactly; the output overlap is 32 pixels, so
  neighbouring rectangles share a band of 32 pixels.
\<close>

theorem scenario_plan:
  "\<not> isl (load scenario_config [4, 3, 256, 256] [4, 3, 512, 512])
   \<and> nbBatches (renderConfig scenario_session) = 4
   \<and> \<not> tta (renderConfig scenario_session)
   \<and> create_zero (640 * px (scaling (renderConfig scenario_session)))
         (640 * py (scaling (renderConfig scenario_session)))
       = Inr (zeros \<lparr>width = 1280, height = 1280\<rparr> :: fpx mat)
   \<and> rows (zeros \<lparr>width = 1280, height = 1280\<rparr> :: fpx mat) = 1280
   \<and> cols (zeros \<lparr>width = 1280, height = 1280\<rparr> :: fpx mat) = 1280
   \<and> fst (calculateTiles scenario_session \<lparr>rx = 0, ry = 0, rwidth = 640, rheight = 640\<rparr>
            \<lparr>rx = 0, ry = 0, rwidth = 1280, rheight = 1280\<rparr>) = 9
   \<and> snd (snd (calculateTiles scenario_session \<lparr>rx = 0, ry = 0, rwidth = 640, rheight = 640\<rparr>
            \<lparr>rx = 0, ry = 0, rwidth = 1280, rheight = 1280\<rparr>))
       = [\<lparr>rx = 0, ry = 0, rwidth = 512, rheight = 512\<rparr>,
          \<lparr>rx = 0, ry = 480, rwidth = 512, rheight = 512\<rparr>,
          \<lparr>rx = 0, ry = 960, rwidth = 512, rheight = 320\<rparr>,
          \<lparr>rx = 480, ry = 0, rwidth = 512, rheight = 512\<rparr>,
          \<lparr>rx = 480, ry = 480, rwidth = 512, rheight = 512\<rparr>,
          \<lparr>rx = 480, ry = 960, rwidth = 512, rheight = 320\<rparr>,
          \<lparr>rx = 960, ry = 0, rwidth = 320, rheight = 512\<rparr>,
          \<lparr>rx = 960, ry = 480, rwidth = 320, rheight = 512\<rparr>,
          \<lparr>rx = 960, ry = 960, rwidth = 320, rheight = 320\<rparr>]
   \<and> covers (snd (snd (calculateTiles scenario_session
                          \<lparr>rx = 0, ry = 0, rwidth = 640, rheight = 640\<rparr>
                          \<lparr>rx = 0, ry = 0, rwidth = 1280, rheight = 1280\<rparr>)))
         \<lparr>rx = 0, ry = 0, rwidth = 1280, rheight = 1280\<rparr>
   \<and> scaledOutputOverlap scenario_session = \<lparr>px = 32, py = 32\<rparr>"
proof -
  have tiles: "calculateTiles scenario_session \<lparr>rx = 0, ry = 0, rwidth = 640, rheight = 640\<rparr>
                 \<lparr>rx = 0, ry = 0, rwidth = 1280, rheight = 1280\<rparr>
               = (9,
      [\<lparr>rx = 0, ry = 0, rwidth = 256, rheight = 256\<rparr>,
       \<lparr>rx = 0, ry = 240, rwidth = 256, rheight = 256\<rparr>,
       \<lparr>rx = 0, ry = 480, rwidth = 256, rheight = 256\<rparr>,
       \<lparr>rx = 240, ry = 0, rwidth = 256, rheight = 256\<rparr>,
       \<lparr>rx = 240, ry = 240, rwidth = 256, rheight = 256\<rparr>,
       \<lparr>rx = 240, ry = 480, rwidth = 256, rheight = 256\<rparr>,
       \<lparr>rx = 480, ry = 0, rwidth = 256, rheight = 256\<rparr>,
       \<lparr>rx = 480, ry = 240, rwidth = 256, rheight = 256\<rparr>,
       \<lparr>rx = 480, ry = 480, rwidth = 256, rheight = 256\<rparr>],
      [\<lparr>rx = 0, ry = 0, rwidth = 512, rheight = 512\<rparr>,
       \<lparr>rx = 0, ry = 480, rwidth = 512, rheight = 512\<rparr>,
       \<lparr>rx = 0, ry = 960, rwidth = 512, rheight = 320\<rparr>,
       \<lparr>rx = 480, ry = 0, rwidth = 512, rheight = 512\<rparr>,
       \<lparr>rx = 480, ry = 480, rwidth = 512, rheight = 512\<rparr>,
       \<lparr>rx = 480, ry = 960, rwidth = 512, rheight = 320\<rparr>,
       \<lparr>rx = 960, ry = 0, rwidth = 320, rheight = 512\<rparr>,
       \<lparr>rx = 960, ry = 480, rwidth = 320, rheight = 512\<rparr>,
       \<lparr>rx = 960, ry = 960, rwidth = 320, rheight = 320\<rparr>])"
    using scenario_tiles by (simp add: scenario_session_def)
  have cover: "covers [\<lparr>rx = 0, ry = 0, rwidth = 512, rheight = 512\<rparr>,
          \<lparr>rx = 0, ry = 480, rwidth = 512, rheight = 512\<rparr>,
          \<lparr>rx = 0, ry = 960, rwidth = 512, rheight = 320\<rparr>,
          \<lparr>rx = 480, ry = 0, rwidth = 512, rheight = 512\<rparr>,
          \<lparr>rx = 480, ry = 480, rwidth = 512, rheight = 512\<rparr>,
          \<lparr>rx = 480, ry = 960, rwidth = 512, rheight = 320\<rparr>,
          \<lparr>rx = 960, ry = 0, rwidth = 320, rheight = 512\<rparr>,
          \<lparr>rx = 960, ry = 480, rwidth = 320, rheight = 512\<rparr>,
          \<lparr>rx = 960, ry = 960, rwidth = 320, rheight = 320\<rparr>]
         \<lparr>rx = 0, ry = 0, rwidth = 1280, rheight = 1280\<rparr>"
    unfolding covers_def inside_def
  proof (intro allI)
    fix x y :: int
    consider "x < 0" | "0 \<le> x \<and> x < 480" | "480 \<le> x \<and> x < 960" | "960 \<le> x \<and> x < 1280"
      | "1280 \<le> x"
      by linarith
    then show "(rx \<lparr>rx = 0, ry = 0, rwidth = 1280, rheight = 1280\<rparr> \<le> x \<and>
          x < rx \<lparr>rx = 0, ry = 0, rwidth = 1280, rheight = 1280\<rparr>
                + rwidth \<lparr>rx = 0, ry = 0, rwidth = 1280, rheight = 1280\<rparr> \<and>
          ry \<lparr>rx = 0, ry = 0, rwidth = 1280, rheight = 1280\<rparr> \<le> y \<and>
          y < ry \<lparr>rx = 0, ry = 0, rwidth = 1280, rheight = 1280\<rparr>
                + rheight \<lparr>rx = 0, ry = 0, rwidth = 1280, rheight = 1280\<rparr>) =
         list_ex (\<lambda>r. rx r \<le> x \<and> x < rx r + rwidth r \<and> ry r \<le> y \<and> y < ry r + rheight r)
           [\<lparr>rx = 0, ry = 0, rwidth = 512, rheight = 512\<rparr>,
            \<lparr>rx = 0, ry = 480, rwidth = 512, rheight = 512\<rparr>,
            \<lparr>rx = 0, ry = 960, rwidth = 512, rheight = 320\<rparr>,
            \<lparr>rx = 480, ry = 0, rwidth = 512, rheight = 512\<rparr>,
            \<lparr>rx = 480, ry = 480, rwidth = 512, rheight = 512\<rparr>,
            \<lparr>rx = 480, ry = 960, rwidth = 512, rheight = 320\<rparr>,
            \<lparr>rx = 960, ry = 0, rwidth = 320, rheight = 512\<rparr>,
            \<lparr>rx = 960, ry = 480, rwidth = 320, rheight = 512\<rparr>,
            \<lparr>rx = 960, ry = 960, rwidth = 320, rheight = 320\<rparr>]"
    proof cases
      case 1 then show ?thesis by simp
    next
      case 2 then show ?thesis by (cases "y < 480"; cases "y < 960"; auto)
    next
      case 3 then show ?thesis by (cases "y < 480"; cases "y < 960"; auto)
    next
      case 4 then show ?thesis by (cases "y < 480"; cases "y < 960"; auto)
    next
      case 5 then show ?thesis by simp
    qed
  qed
  have canvas: "rows (zeros \<lparr>width = 1280, height = 1280\<rparr> :: fpx mat) = 1280"
    "cols (zeros \<lparr>width = 1280, height = 1280\<rparr> :: fpx mat) = 1280"
    by (simp_all add: zeros_def rows_mat_of cols_mat_of)
  have "\<not> isl (load scenario_config [4, 3, 256, 256] [4, 3, 512, 512])"
    by (simp add: load_scenario_eq)
  moreover have "create_zero (640 * px (scaling (renderConfig scenario_session)))
         (640 * py (scaling (renderConfig scenario_session)))
       = Inr (zeros \<lparr>width = 1280, height = 1280\<rparr> :: fpx mat)"
    by (simp add: scenario_session_eq scenario_config_def create_zero_def)
  moreover have "nbBatches (renderConfig scenario_session) = 4"
    "\<not> tta (renderConfig scenario_session)"
    "scaledOutputOverlap scenario_session = \<lparr>px = 32, py = 32\<rparr>"
    by (simp_all add: scenario_session_eq scenario_config_def)
  ultimately show ?thesis
    using canvas cover by (simp add: tiles)
qed

theorem scenario_plan_witness:
  "inside \<lparr>rx = 0, ry = 0, rwidth = 1280, rheight = 1280\<rparr> 500 1000
   \<and> list_ex (\<lambda>r. inside r 500 1000)
         (snd (snd (calculateTiles scenario_session
                      \<lparr>rx = 0, ry = 0, rwidth = 640, rheight = 640\<rparr>
                      \<lparr>rx = 0, ry = 0, rwidth = 1280, rheight = 1280\<rparr>)))"
proof -
  have c: "covers (snd (snd (calculateTiles scenario_session
                          \<lparr>rx = 0, ry = 0, rwidth = 640, rheight = 640\<rparr>
                          \<lparr>rx = 0, ry = 0, rwidth = 1280, rheight = 1280\<rparr>)))
         \<lparr>rx = 0, ry = 0, rwidth = 1280, rheight = 1280\<rparr>"
    using scenario_plan by blast
  have i: "inside \<lparr>rx = 0, ry = 0, rwidth = 1280, rheight = 1280\<rparr> 500 1000"
    by (simp add: inside_def)
  from c have "inside \<lparr>rx = 0, ry = 0, rwidth = 1280, rheight = 1280\<rparr> 500 1000
                 = list_ex (\<lambda>r. inside r 500 1000)
                     (snd (snd (calculateTiles scenario_session
                                  \<lparr>rx = 0, ry = 0, rwidth = 640, rheight = 640\<rparr>
                                  \<lparr>rx = 0, ry = 0, rwidth = 1280, rheight = 1280\<rparr>)))"
    unfolding covers_def by blast
  with i show ?thesis by simp
qed

text \<open>
  C5 as stated expects exactly 4 tiles in a grid of 2 by 2; the planner produces 9.
\<close>

theorem scenario_plan_counterexample:
  "fst (calculateTiles scenario_session \<lparr>rx = 0, ry = 0, rwidth = 640, rheight = 640\<rparr>
          \<lparr>rx = 0, ry = 0, rwidth = 1280, rheight = 1280\<rparr>) \<noteq> 4"
  using scenario_tiles by (simp add: scenario_session_def)

section \<open>Strides that are not positive\<close>










end
